theory Spec2Isabelle
  imports Complex_Main "HOL-Library.AList" "HOL-Library.Sublist"
begin

section \<open>Modelling conventions\<close>

text \<open>
  The retrieval engine of the chatbot front end: \<open>preprocessText\<close>, \<open>tokenize\<close>,
  \<open>calculateTFIDF\<close> and the class \<open>RetrievalEngine\<close> with its methods
  \<open>cosineSimilarity\<close> and \<open>retrieve\<close>.

  \<^item> A JavaScript string is a \<open>string\<close>; its code units are taken from the Latin-1 range,
    which is what a \<open>char\<close> holds. A value that may be absent (\<open>undefined\<close> or \<open>null\<close>)
    is an \<open>option\<close>.
  \<^item> A number is a \<open>real\<close> or \<open>NaN\<close>. The engine is given twice. In the first form
    sums, products, quotients, \<open>Math.log\<close> and \<open>Math.sqrt\<close> are exact. In the second
    form (the functions whose names end in \<open>R\<close>) every operation is followed by a rounding
    function, and \<open>Math.log\<close> is a parameter; with the rounding \<open>double\<close>, to the nearest
    number of 53 significant bits, it is the arithmetic of IEEE doubles away from overflow
    and underflow. Without rounding the second form is the first.
  \<^item> An object literal used as a dictionary is the association list of its own properties,
    with distinct keys in insertion order: writing an existing key keeps its position, a
    new key goes to the end. Reading a key that is not an own property falls through to
    \<open>Object.prototype\<close>, as in the source.
  \<^item> \<open>Object.keys\<close> is modelled in insertion order. JavaScript lists keys that are array
    indices first; the order only decides in which order exact sums are added up.
  \<^item> \<open>new Set(xs)\<close> is the list of the distinct elements of \<open>xs\<close> in order of first
    occurrence.
  \<^item> \<open>Array.prototype.sort\<close> is stable; with the comparator \<open>b.score - a.score\<close>, on
    scores that are positive numbers, it is the stable sort by descending score, here
    insertion sort on the negated score.
\<close>

section \<open>Characters\<close>

text \<open>The class \<open>\s\<close> of a regular expression, which is also what \<open>trim\<close> strips:
  tab, line feed, vertical tab, form feed, carriage return, space and no-break space.\<close>

definition isWhiteSpace :: "char \<Rightarrow> bool" where
  "isWhiteSpace c = (let n = (of_char c :: nat) in (9 \<le> n \<and> n \<le> 13) \<or> n = 32 \<or> n = 160)"

text \<open>The class \<open>\w\<close>: ASCII letters, digits and the underscore.\<close>

definition isWordChar :: "char \<Rightarrow> bool" where
  "isWordChar c = (let n = (of_char c :: nat) in
     (48 \<le> n \<and> n \<le> 57) \<or> (65 \<le> n \<and> n \<le> 90) \<or> n = 95 \<or> (97 \<le> n \<and> n \<le> 122))"

text \<open>\<open>toLowerCase\<close> on one code unit: \<open>A\<close>-\<open>Z\<close> and the accented capitals
  \<open>0xC0\<close>-\<open>0xDE\<close> (the multiplication sign \<open>0xD7\<close> apart) move up by 32.\<close>

definition toLowerChar :: "char \<Rightarrow> char" where
  "toLowerChar c = (let n = (of_char c :: nat) in
     if (65 \<le> n \<and> n \<le> 90) \<or> (192 \<le> n \<and> n \<le> 222 \<and> n \<noteq> 215)
     then char_of (n + 32) else c)"

definition toLowerCase :: "string \<Rightarrow> string" where
  "toLowerCase s = map toLowerChar s"

section \<open>Text processing\<close>

text \<open>\<open>.replace(/[^\w\s]/g, " ")\<close>\<close>

definition replaceNonWord :: "string \<Rightarrow> string" where
  "replaceNonWord s = map (\<lambda>c. if isWordChar c \<or> isWhiteSpace c then c else CHR '' '') s"

text \<open>\<open>.replace(/\s+/g, " ")\<close>: every maximal run of white space becomes one space.\<close>

function collapseSpaces :: "string \<Rightarrow> string" where
  "collapseSpaces [] = []"
| "collapseSpaces (c # cs) =
     (if isWhiteSpace c then CHR '' '' # collapseSpaces (dropWhile isWhiteSpace cs)
      else c # collapseSpaces cs)"
  by pat_completeness auto
termination
  by (relation "measure length") (auto simp: less_Suc_eq_le length_dropWhile_le)

definition trim :: "string \<Rightarrow> string" where
  "trim s = rev (dropWhile isWhiteSpace (rev (dropWhile isWhiteSpace s)))"

definition preprocessText :: "string \<Rightarrow> string" where
  "preprocessText text_in = trim (collapseSpaces (replaceNonWord (toLowerCase text_in)))"

text \<open>\<open>.split(" ")\<close>: cut at every space; two adjacent spaces give an empty piece, and
  the empty string gives one empty piece.\<close>

fun split :: "char \<Rightarrow> string \<Rightarrow> string list" where
  "split sep [] = [[]]"
| "split sep (c # cs) =
     (if c = sep then [] # split sep cs
      else (case split sep cs of [] \<Rightarrow> [[c]] | w # ws \<Rightarrow> (c # w) # ws))"

text \<open>\<open>tokenize\<close>: \<open>!text\<close> holds of an absent and of an empty text.\<close>

definition tokenize :: "string option \<Rightarrow> string list" where
  "tokenize text_in =
     (case text_in of
        None \<Rightarrow> []
      | Some t \<Rightarrow>
          if t = [] then []
          else filter (\<lambda>word. length word > 2) (split (CHR '' '') (preprocessText t)))"

section \<open>The normalizer of the specification\<close>

text \<open>The normalizer as the specification words it, step by step and on its own terms:
  the classes of characters are tables, lowercasing is the table of the capital letters
  and their small letters, a run of white space is collapsed by dropping every white-space
  character that another one follows, and the split cuts at every white-space
  character.\<close>

definition whiteSpaceChars :: string where
  "whiteSpaceChars = [CHR 0x09, CHR 0x0A, CHR 0x0B, CHR 0x0C, CHR 0x0D, CHR 0x20, CHR 0xA0]"

definition wordChars :: string where
  "wordChars = ''abcdefghijklmnopqrstuvwxyz'' @ ''ABCDEFGHIJKLMNOPQRSTUVWXYZ'' @ ''0123456789'' @ ''_''"

definition capitalLetters :: string where
  "capitalLetters = ''ABCDEFGHIJKLMNOPQRSTUVWXYZ'' @ map char_of ([192..<215] @ [216..<223] :: nat list)"

definition smallLetters :: string where
  "smallLetters = ''abcdefghijklmnopqrstuvwxyz'' @ map char_of ([224..<247] @ [248..<255] :: nat list)"

definition lowercaseChar :: "char \<Rightarrow> char" where
  "lowercaseChar c = (case map_of (zip capitalLetters smallLetters) c of Some d \<Rightarrow> d | None \<Rightarrow> c)"

text \<open>White space, word characters and lowercasing.\<close>

definition isSpace :: "char \<Rightarrow> bool" where
  "isSpace c = (c \<in> set whiteSpaceChars)"

definition isWord :: "char \<Rightarrow> bool" where
  "isWord c = (c \<in> set wordChars)"

definition lowercase :: "string \<Rightarrow> string" where
  "lowercase s = map lowercaseChar s"

text \<open>Replace every character that is not a word character or white space with a
  space.\<close>

definition replaceOthers :: "string \<Rightarrow> string" where
  "replaceOthers s = map (\<lambda>c. if isWord c then c else if isSpace c then c else CHR '' '') s"

text \<open>Collapse consecutive white-space runs into one space.\<close>

fun collapseRuns :: "string \<Rightarrow> string" where
  "collapseRuns [] = []"
| "collapseRuns [c] = [if isSpace c then CHR '' '' else c]"
| "collapseRuns (c # d # cs) =
     (if isSpace c \<and> isSpace d then collapseRuns (d # cs)
      else (if isSpace c then CHR '' '' else c) # collapseRuns (d # cs))"

text \<open>Trim leading and trailing white space.\<close>

fun stripLeading :: "string \<Rightarrow> string" where
  "stripLeading [] = []"
| "stripLeading (c # cs) = (if isSpace c then stripLeading cs else c # cs)"

definition stripSpace :: "string \<Rightarrow> string" where
  "stripSpace s = rev (stripLeading (rev (stripLeading s)))"

text \<open>Split on white space.\<close>

fun splitWhen :: "(char \<Rightarrow> bool) \<Rightarrow> string \<Rightarrow> string list" where
  "splitWhen p [] = [[]]"
| "splitWhen p (c # cs) =
     (if p c then [] # splitWhen p cs
      else (case splitWhen p cs of [] \<Rightarrow> [[c]] | w # ws \<Rightarrow> (c # w) # ws))"

text \<open>The normalizer: the steps in order, then discard any token of length at most 2.\<close>

definition normalize :: "string option \<Rightarrow> string list" where
  "normalize text_in =
     (case text_in of
        None \<Rightarrow> []
      | Some t \<Rightarrow>
          filter (\<lambda>token. \<not> length token \<le> 2)
            (splitWhen isSpace (stripSpace (collapseRuns (replaceOthers (lowercase t))))))"

section \<open>Values, dictionaries and sets\<close>

text \<open>The values the dictionaries of the engine hold and its arithmetic produces: a
  number, \<open>NaN\<close>, or a value that is no number at all. \<open>Other\<close> stands for the objects
  an empty object literal inherits (the function \<open>Object\<close> under the key
  \<open>constructor\<close>, \<open>Object.prototype\<close> under \<open>__proto__\<close>, and the inherited methods)
  and for the strings that \<open>+ 1\<close> builds from them, such as
  \<open>function Object() { [native code] }1\<close>. All of them are truthy, and all of them
  are \<open>NaN\<close> as operands of \<open>*\<close>, \<open>/\<close> and \<open>Math.log\<close>.\<close>

datatype jsval = Num real | NaN | Other

definition truthy :: "jsval \<Rightarrow> bool" where
  "truthy v = (case v of Num r \<Rightarrow> r \<noteq> 0 | NaN \<Rightarrow> False | Other \<Rightarrow> True)"

text \<open>\<open>x || d\<close> where \<open>x\<close> may be \<open>undefined\<close>.\<close>

definition orElse :: "jsval option \<Rightarrow> jsval \<Rightarrow> jsval" where
  "orElse x d = (case x of None \<Rightarrow> d | Some v \<Rightarrow> if truthy v then v else d)"

text \<open>\<open>undefined\<close> as an operand of arithmetic is \<open>NaN\<close>.\<close>

definition operand :: "jsval option \<Rightarrow> jsval" where
  "operand x = (case x of None \<Rightarrow> NaN | Some v \<Rightarrow> v)"

text \<open>\<open>a + b\<close>: with an object or a string on either side the result is a string.\<close>

fun jsAdd :: "jsval \<Rightarrow> jsval \<Rightarrow> jsval" where
  "jsAdd (Num a) (Num b) = Num (a + b)"
| "jsAdd Other b = Other"
| "jsAdd a Other = Other"
| "jsAdd a b = NaN"

fun jsMul :: "jsval \<Rightarrow> jsval \<Rightarrow> jsval" where
  "jsMul (Num a) (Num b) = Num (a * b)"
| "jsMul a b = NaN"

text \<open>\<open>a / b\<close>. A quotient by zero would be an infinity or \<open>NaN\<close>; no divisor of the
  engine is zero: they are \<open>Math.max(1, n)\<close>, \<open>x || 1\<close>, and \<open>denom\<close> behind the test
  \<open>denom === 0\<close>.\<close>

fun jsDiv :: "jsval \<Rightarrow> jsval \<Rightarrow> jsval" where
  "jsDiv (Num a) (Num b) = (if b = 0 then NaN else Num (a / b))"
| "jsDiv a b = NaN"

text \<open>\<open>Math.log\<close>. Its argument in the engine is \<open>docCount / x\<close> with \<open>docCount \<ge> 1\<close>,
  never zero; of a negative number it is \<open>NaN\<close>.\<close>

fun jsLog :: "jsval \<Rightarrow> jsval" where
  "jsLog (Num a) = (if 0 < a then Num (ln a) else NaN)"
| "jsLog a = NaN"

fun jsSqrt :: "jsval \<Rightarrow> jsval" where
  "jsSqrt (Num a) = (if 0 \<le> a then Num (sqrt a) else NaN)"
| "jsSqrt a = NaN"

text \<open>\<open>x > 0\<close> and \<open>a >= b\<close> on values: false unless both sides are numbers.\<close>

fun jsPositive :: "jsval \<Rightarrow> bool" where
  "jsPositive (Num a) = (0 < a)"
| "jsPositive a = False"

fun jsGe :: "jsval \<Rightarrow> jsval \<Rightarrow> bool" where
  "jsGe (Num a) (Num b) = (b \<le> a)"
| "jsGe a b = False"

text \<open>The number a value is, for the comparator of the sort.\<close>

fun numberOf :: "jsval \<Rightarrow> real" where
  "numberOf (Num a) = a"
| "numberOf a = 0"

type_synonym vec = "(string \<times> jsval) list"

text \<open>The properties of \<open>Object.prototype\<close>, which every object literal inherits.\<close>

definition inheritedNames :: "string list" where
  "inheritedNames =
     [''constructor'', ''__proto__'', ''hasOwnProperty'', ''isPrototypeOf'',
      ''propertyIsEnumerable'', ''toLocaleString'', ''toString'', ''valueOf'',
      ''__defineGetter__'', ''__defineSetter__'', ''__lookupGetter__'',
      ''__lookupSetter__'']"

text \<open>\<open>m[key]\<close> as a read: the own property, else the inherited one, else \<open>undefined\<close>.\<close>

definition getProp :: "vec \<Rightarrow> string \<Rightarrow> jsval option" where
  "getProp m key =
     (case map_of m key of
        Some v \<Rightarrow> Some v
      | None \<Rightarrow> if key \<in> set inheritedNames then Some Other else None)"

text \<open>\<open>m[key] = v\<close> for a number or a string \<open>v\<close>: under the key \<open>__proto__\<close> the
  assignment runs the inherited setter, which ignores such a value and creates no
  property.\<close>

definition setProp :: "string \<Rightarrow> jsval \<Rightarrow> vec \<Rightarrow> vec" where
  "setProp key v m = (if key = ''__proto__'' then m else AList.update key v m)"

text \<open>\<open>m[term] = (m[term] || 0) + 1\<close>\<close>

definition increment :: "string \<Rightarrow> vec \<Rightarrow> vec" where
  "increment term m = setProp term (jsAdd (orElse (getProp m term) (Num 0)) (Num 1)) m"

text \<open>\<open>new Set(xs)\<close>, iterated in insertion order.\<close>

definition newSet :: "'a list \<Rightarrow> 'a list" where
  "newSet xs = fold (\<lambda>x acc. if x \<in> set acc then acc else acc @ [x]) xs []"

section \<open>Documents and the TF-IDF index\<close>

record document =
  doc_id :: int
  title :: string
  content :: "string option"
  timestamp :: string

record indexed = document +
  tfidf :: vec

record scored = indexed +
  score :: jsval

text \<open>\<open>doc.content || ""\<close>\<close>

definition contentOrEmpty :: "document \<Rightarrow> string option" where
  "contentOrEmpty doc = (case content doc of None \<Rightarrow> Some [] | Some s \<Rightarrow> Some s)"

text \<open>The first loop of \<open>calculateTFIDF\<close>: in how many documents each term occurs.\<close>

definition termDocFreq :: "document list \<Rightarrow> vec" where
  "termDocFreq documents =
     fold (\<lambda>doc m. fold increment (newSet (tokenize (contentOrEmpty doc))) m) documents []"

text \<open>The body of the \<open>map\<close> of \<open>calculateTFIDF\<close>, for one document; \<open>Object.keys\<close> are
  the own properties.\<close>

definition docVector :: "real \<Rightarrow> vec \<Rightarrow> document \<Rightarrow> vec" where
  "docVector docCount tdf doc =
     (let terms = tokenize (contentOrEmpty doc);
          termFreq = fold increment terms []
      in fold (\<lambda>term acc.
                 let tf = jsDiv (operand (getProp termFreq term))
                                (Num (max 1 (real (length terms))));
                     idf = jsLog (jsDiv (Num docCount) (orElse (getProp tdf term) (Num 1)))
                 in setProp term (jsMul tf idf) acc)
              (map fst termFreq) [])"

definition calculateTFIDF :: "document list \<Rightarrow> indexed list" where
  "calculateTFIDF documents =
     (let docCount = (if length documents = 0 then 1 else real (length documents));
          tdf = termDocFreq documents
      in map (\<lambda>doc. \<lparr>doc_id = doc_id doc, title = title doc, content = content doc,
                      timestamp = timestamp doc, tfidf = docVector docCount tdf doc\<rparr>)
             documents)"

section \<open>The retrieval engine\<close>

text \<open>The constructor: \<open>this.documents = calculateTFIDF(documents || [])\<close>.\<close>

definition RetrievalEngine :: "document list option \<Rightarrow> indexed list" where
  "RetrievalEngine documents =
     calculateTFIDF (case documents of None \<Rightarrow> [] | Some ds \<Rightarrow> ds)"

text \<open>The body of the loop of \<open>cosineSimilarity\<close>, on the dot product and the two
  squared magnitudes, and the loop over the union of the keys.\<close>

definition cosineStep ::
  "vec \<Rightarrow> vec \<Rightarrow> string \<Rightarrow> jsval \<times> jsval \<times> jsval \<Rightarrow> jsval \<times> jsval \<times> jsval" where
  "cosineStep vec1 vec2 term acc =
     (case acc of (dotProduct, mag1, mag2) \<Rightarrow>
        let v1 = orElse (getProp vec1 term) (Num 0);
            v2 = orElse (getProp vec2 term) (Num 0)
        in (jsAdd dotProduct (jsMul v1 v2), jsAdd mag1 (jsMul v1 v1),
            jsAdd mag2 (jsMul v2 v2)))"

definition cosineSums :: "vec \<Rightarrow> vec \<Rightarrow> jsval \<times> jsval \<times> jsval" where
  "cosineSums vec1 vec2 =
     fold (cosineStep vec1 vec2) (newSet (map fst vec1 @ map fst vec2)) (Num 0, Num 0, Num 0)"

definition cosineSimilarity :: "vec \<Rightarrow> vec \<Rightarrow> jsval" where
  "cosineSimilarity vec1 vec2 =
     (case cosineSums vec1 vec2 of (dotProduct, mag1, mag2) \<Rightarrow>
        let denom = jsMul (jsSqrt mag1) (jsSqrt mag2)
        in if denom = Num 0 then Num 0 else jsDiv dotProduct denom)"

text \<open>The query vector of \<open>retrieve\<close>.\<close>

definition queryVec :: "string list \<Rightarrow> vec" where
  "queryVec queryTerms = fold increment queryTerms []"

definition withScore :: "vec \<Rightarrow> indexed \<Rightarrow> scored" where
  "withScore qv doc =
     \<lparr>doc_id = doc_id doc, title = title doc, content = content doc,
      timestamp = timestamp doc, tfidf = tfidf doc,
      score = cosineSimilarity qv (tfidf doc)\<rparr>"

text \<open>\<open>.slice(0, topK)\<close>: a negative end counts from the end of the array.\<close>

definition slice0 :: "int \<Rightarrow> 'a list \<Rightarrow> 'a list" where
  "slice0 topK xs =
     (if topK < 0 then take (nat (int (length xs) + topK)) xs else take (nat topK) xs)"

definition retrieve :: "indexed list \<Rightarrow> string option \<Rightarrow> int \<Rightarrow> scored list" where
  "retrieve documents query topK =
     (case query of
        None \<Rightarrow> []
      | Some q \<Rightarrow>
          if q = [] \<or> trim q = [] then []
          else
            let queryTerms = tokenize query in
            if length queryTerms = 0 then []
            else
              let qv = queryVec queryTerms
              in slice0 topK
                   (sort_key (\<lambda>d. - numberOf (score d))
                      (filter (\<lambda>d. jsPositive (score d)) (map (withScore qv) documents))))"

section \<open>The engine with rounding\<close>

text \<open>Rounding to the nearest integer, ties to the even one, and rounding to the nearest
  number with 53 significant bits: the exponent is that of the argument, the significand
  is rounded. Overflow to an infinity and the subnormal numbers are left out.\<close>

definition roundEven :: "real \<Rightarrow> int" where
  "roundEven q =
     (let f = \<lfloor>q\<rfloor>; r = q - of_int f
      in if r < 1 / 2 then f else if 1 / 2 < r then f + 1 else if even f then f else f + 1)"

definition double :: "real \<Rightarrow> real" where
  "double x =
     (if x = 0 then 0
      else let e = \<lfloor>log 2 \<bar>x\<bar>\<rfloor> - 52
           in of_int (roundEven (x / 2 powr of_int e)) * 2 powr of_int e)"

text \<open>The arithmetic of the engine, each operation followed by the rounding \<open>rnd\<close>;
  \<open>Math.log\<close> is the parameter \<open>mlog\<close>.\<close>

fun jsAddR :: "(real \<Rightarrow> real) \<Rightarrow> jsval \<Rightarrow> jsval \<Rightarrow> jsval" where
  "jsAddR rnd (Num a) (Num b) = Num (rnd (a + b))"
| "jsAddR rnd Other b = Other"
| "jsAddR rnd a Other = Other"
| "jsAddR rnd a b = NaN"

fun jsMulR :: "(real \<Rightarrow> real) \<Rightarrow> jsval \<Rightarrow> jsval \<Rightarrow> jsval" where
  "jsMulR rnd (Num a) (Num b) = Num (rnd (a * b))"
| "jsMulR rnd a b = NaN"

fun jsDivR :: "(real \<Rightarrow> real) \<Rightarrow> jsval \<Rightarrow> jsval \<Rightarrow> jsval" where
  "jsDivR rnd (Num a) (Num b) = (if b = 0 then NaN else Num (rnd (a / b)))"
| "jsDivR rnd a b = NaN"

fun jsLogR :: "(real \<Rightarrow> real) \<Rightarrow> jsval \<Rightarrow> jsval" where
  "jsLogR mlog (Num a) = (if 0 < a then Num (mlog a) else NaN)"
| "jsLogR mlog a = NaN"

fun jsSqrtR :: "(real \<Rightarrow> real) \<Rightarrow> jsval \<Rightarrow> jsval" where
  "jsSqrtR rnd (Num a) = (if 0 \<le> a then Num (rnd (sqrt a)) else NaN)"
| "jsSqrtR rnd a = NaN"

text \<open>The engine as above, line by line, over this arithmetic.\<close>

definition incrementR :: "(real \<Rightarrow> real) \<Rightarrow> string \<Rightarrow> vec \<Rightarrow> vec" where
  "incrementR rnd term m =
     setProp term (jsAddR rnd (orElse (getProp m term) (Num 0)) (Num 1)) m"

definition termDocFreqR :: "(real \<Rightarrow> real) \<Rightarrow> document list \<Rightarrow> vec" where
  "termDocFreqR rnd documents =
     fold (\<lambda>doc m. fold (incrementR rnd) (newSet (tokenize (contentOrEmpty doc))) m)
       documents []"

definition docVectorR ::
  "(real \<Rightarrow> real) \<Rightarrow> (real \<Rightarrow> real) \<Rightarrow> real \<Rightarrow> vec \<Rightarrow> document \<Rightarrow> vec" where
  "docVectorR rnd mlog docCount tdf doc =
     (let terms = tokenize (contentOrEmpty doc);
          termFreq = fold (incrementR rnd) terms []
      in fold (\<lambda>term acc.
                 let tf = jsDivR rnd (operand (getProp termFreq term))
                                (Num (max 1 (real (length terms))));
                     idf = jsLogR mlog
                             (jsDivR rnd (Num docCount) (orElse (getProp tdf term) (Num 1)))
                 in setProp term (jsMulR rnd tf idf) acc)
              (map fst termFreq) [])"

definition calculateTFIDFR ::
  "(real \<Rightarrow> real) \<Rightarrow> (real \<Rightarrow> real) \<Rightarrow> document list \<Rightarrow> indexed list" where
  "calculateTFIDFR rnd mlog documents =
     (let docCount = (if length documents = 0 then 1 else real (length documents));
          tdf = termDocFreqR rnd documents
      in map (\<lambda>doc. \<lparr>doc_id = doc_id doc, title = title doc, content = content doc,
                      timestamp = timestamp doc,
                      tfidf = docVectorR rnd mlog docCount tdf doc\<rparr>)
             documents)"

definition RetrievalEngineR ::
  "(real \<Rightarrow> real) \<Rightarrow> (real \<Rightarrow> real) \<Rightarrow> document list option \<Rightarrow> indexed list" where
  "RetrievalEngineR rnd mlog documents =
     calculateTFIDFR rnd mlog (case documents of None \<Rightarrow> [] | Some ds \<Rightarrow> ds)"

definition cosineStepR ::
  "(real \<Rightarrow> real) \<Rightarrow> vec \<Rightarrow> vec \<Rightarrow> string \<Rightarrow> jsval \<times> jsval \<times> jsval
     \<Rightarrow> jsval \<times> jsval \<times> jsval" where
  "cosineStepR rnd vec1 vec2 term acc =
     (case acc of (dotProduct, mag1, mag2) \<Rightarrow>
        let v1 = orElse (getProp vec1 term) (Num 0);
            v2 = orElse (getProp vec2 term) (Num 0)
        in (jsAddR rnd dotProduct (jsMulR rnd v1 v2), jsAddR rnd mag1 (jsMulR rnd v1 v1),
            jsAddR rnd mag2 (jsMulR rnd v2 v2)))"

definition cosineSumsR :: "(real \<Rightarrow> real) \<Rightarrow> vec \<Rightarrow> vec \<Rightarrow> jsval \<times> jsval \<times> jsval" where
  "cosineSumsR rnd vec1 vec2 =
     fold (cosineStepR rnd vec1 vec2) (newSet (map fst vec1 @ map fst vec2))
       (Num 0, Num 0, Num 0)"

definition cosineSimilarityR :: "(real \<Rightarrow> real) \<Rightarrow> vec \<Rightarrow> vec \<Rightarrow> jsval" where
  "cosineSimilarityR rnd vec1 vec2 =
     (case cosineSumsR rnd vec1 vec2 of (dotProduct, mag1, mag2) \<Rightarrow>
        let denom = jsMulR rnd (jsSqrtR rnd mag1) (jsSqrtR rnd mag2)
        in if denom = Num 0 then Num 0 else jsDivR rnd dotProduct denom)"

definition queryVecR :: "(real \<Rightarrow> real) \<Rightarrow> string list \<Rightarrow> vec" where
  "queryVecR rnd queryTerms = fold (incrementR rnd) queryTerms []"

definition withScoreR :: "(real \<Rightarrow> real) \<Rightarrow> vec \<Rightarrow> indexed \<Rightarrow> scored" where
  "withScoreR rnd qv doc =
     \<lparr>doc_id = doc_id doc, title = title doc, content = content doc,
      timestamp = timestamp doc, tfidf = tfidf doc,
      score = cosineSimilarityR rnd qv (tfidf doc)\<rparr>"

definition retrieveR ::
  "(real \<Rightarrow> real) \<Rightarrow> indexed list \<Rightarrow> string option \<Rightarrow> int \<Rightarrow> scored list" where
  "retrieveR rnd documents query topK =
     (case query of
        None \<Rightarrow> []
      | Some q \<Rightarrow>
          if q = [] \<or> trim q = [] then []
          else
            let queryTerms = tokenize query in
            if length queryTerms = 0 then []
            else
              let qv = queryVecR rnd queryTerms
              in slice0 topK
                   (sort_key (\<lambda>d. - numberOf (score d))
                      (filter (\<lambda>d. jsPositive (score d)) (map (withScoreR rnd qv) documents))))"

text \<open>\<open>Math.log\<close> is implementation-approximated: here the double nearest to the
  logarithm, with its value at 3 written out, \<open>1.0986122886681098\<close>.\<close>

definition mathLog :: "real \<Rightarrow> real" where
  "mathLog x = (if x = 3 then 4947709893870347 / 2 ^ 52 else double (ln x))"

text \<open>Three documents for a query that repeats the first of them three times.\<close>

definition docM :: document where
  "docM = \<lparr>doc_id = 6, title = ''M'', content = Some ''machine learning'', timestamp = ''t6''\<rparr>"

definition docCats :: document where
  "docCats = \<lparr>doc_id = 7, title = ''Cats'', content = Some ''cats'', timestamp = ''t7''\<rparr>"

definition docDogs :: document where
  "docDogs = \<lparr>doc_id = 8, title = ''Dogs'', content = Some ''dogs'', timestamp = ''t8''\<rparr>"

definition roundingDocs :: "document list" where
  "roundingDocs = [docM, docCats, docDogs]"

section \<open>The quantities of the specification\<close>

text \<open>Term frequency, document frequency and inverse document frequency as the
  specification words them, on the normalized terms of the documents.\<close>

definition tf :: "string \<Rightarrow> string list \<Rightarrow> real" where
  "tf t terms = real (count_list terms t) / max 1 (real (length terms))"

definition df :: "string \<Rightarrow> document list \<Rightarrow> nat" where
  "df t documents =
     length (filter (\<lambda>d. t \<in> set (remdups (tokenize (content d)))) documents)"

definition idf :: "string \<Rightarrow> document list \<Rightarrow> real" where
  "idf t documents = ln (real (length documents) / real (df t documents))"

section \<open>Invariants and scenarios\<close>

text \<open>Under the name of an inherited property only values that are no numbers are stored.\<close>

definition inheritedOther :: "vec \<Rightarrow> bool" where
  "inheritedOther m = (\<forall>t\<in>set inheritedNames. map_of m t = None \<or> map_of m t = Some Other)"

text \<open>The invariant of the loop of \<open>cosineSimilarity\<close>: no sum is a string, and sums that
  are numbers satisfy the Cauchy-Schwarz inequality.\<close>

fun cauchy :: "jsval \<times> jsval \<times> jsval \<Rightarrow> bool" where
  "cauchy (Num d, Num a, Num b) = (0 \<le> a \<and> 0 \<le> b \<and> d\<^sup>2 \<le> a * b)"
| "cauchy (dp, ma, mb) = (dp \<noteq> Other \<and> ma \<noteq> Other \<and> mb \<noteq> Other)"

text \<open>The documents of the scenarios.\<close>

definition docA :: document where
  "docA = \<lparr>doc_id = 1, title = ''A'', content = Some ''ML is a subset of AI'',
            timestamp = ''t1''\<rparr>"

definition docB :: document where
  "docB = \<lparr>doc_id = 2, title = ''B'', content = Some ''Cats are mammals'',
            timestamp = ''t2''\<rparr>"

definition docC :: document where
  "docC = \<lparr>doc_id = 3, title = ''C'',
            content = Some ''Deep learning is part of machine learning'',
            timestamp = ''t3''\<rparr>"

definition threeDocs :: "document list" where
  "threeDocs = [docA, docB, docC]"

text \<open>A document whose content is the query \<open>machine learning\<close> twice.\<close>

definition docR :: document where
  "docR = \<lparr>doc_id = 4, title = ''R'', content = Some ''machine learning machine learning'',
            timestamp = ''t4''\<rparr>"

text \<open>A document with the word \<open>constructor\<close>.\<close>

definition docK :: document where
  "docK = \<lparr>doc_id = 5, title = ''K'', content = Some ''Constructor injection'',
            timestamp = ''t5''\<rparr>"

section \<open>Auxiliary facts\<close>

subsection \<open>Text\<close>

lemma isWhiteSpace_space: "isWhiteSpace (CHR '' '')"
  by (simp add: isWhiteSpace_def)

lemma toLowerChar_white: "isWhiteSpace c \<Longrightarrow> toLowerChar c = c"
  by (auto simp: isWhiteSpace_def toLowerChar_def Let_def)

lemma collapseSpaces_white:
  "c \<in> set (collapseSpaces s) \<Longrightarrow> isWhiteSpace c \<Longrightarrow> c = CHR '' ''"
proof (induction s rule: collapseSpaces.induct)
  case 1
  then show ?case by simp
next
  case (2 d ds)
  then show ?case by (auto split: if_splits)
qed

lemma collapseSpaces_all_white:
  "\<forall>c\<in>set s. isWhiteSpace c \<Longrightarrow> s \<noteq> [] \<Longrightarrow> collapseSpaces s = [CHR '' '']"
proof (cases s)
  case Nil
  assume "s \<noteq> []"
  with Nil show ?thesis by simp
next
  case (Cons d ds)
  assume a: "\<forall>c\<in>set s. isWhiteSpace c"
  with Cons have "dropWhile isWhiteSpace ds = []" by simp
  with a Cons show ?thesis by (simp only: collapseSpaces.simps) simp
qed

lemma set_trim: "set (trim s) \<subseteq> set s"
proof -
  have "set (trim s) \<subseteq> set (dropWhile isWhiteSpace s)"
    unfolding trim_def set_rev using set_dropWhileD [of _ isWhiteSpace "rev (dropWhile isWhiteSpace s)"]
    by auto
  also have "\<dots> \<subseteq> set s" by (auto dest: set_dropWhileD)
  finally show ?thesis .
qed

lemma trim_Nil_iff: "trim s = [] \<longleftrightarrow> (\<forall>c\<in>set s. isWhiteSpace c)"
proof
  assume "trim s = []"
  then have a: "\<forall>c\<in>set (dropWhile isWhiteSpace s). isWhiteSpace c"
    by (simp add: trim_def)
  have "dropWhile isWhiteSpace s = []"
  proof (rule ccontr)
    assume n: "dropWhile isWhiteSpace s \<noteq> []"
    then have "\<not> isWhiteSpace (hd (dropWhile isWhiteSpace s))" by (rule hd_dropWhile)
    with a n show False by (simp add: hd_in_set)
  qed
  then show "\<forall>c\<in>set s. isWhiteSpace c" by simp
next
  assume "\<forall>c\<in>set s. isWhiteSpace c"
  then have "dropWhile isWhiteSpace s = []" by simp
  then show "trim s = []" by (simp only: trim_def rev.simps dropWhile.simps)
qed

lemma preprocessText_white:
  assumes "\<forall>c\<in>set s. isWhiteSpace c"
  shows "preprocessText s = []"
proof (cases "s = []")
  case True
  then show ?thesis
    by (simp add: preprocessText_def toLowerCase_def replaceNonWord_def trim_def)
next
  case False
  have "toLowerCase s = s"
    using assms by (simp add: toLowerCase_def toLowerChar_white map_idI)
  moreover have "replaceNonWord s = s"
    using assms by (simp add: replaceNonWord_def map_idI)
  ultimately show ?thesis
    using assms False
    by (simp add: preprocessText_def collapseSpaces_all_white trim_def isWhiteSpace_space)
qed

lemma tokenize_white: "\<forall>c\<in>set s. isWhiteSpace c \<Longrightarrow> tokenize (Some s) = []"
  by (simp add: tokenize_def preprocessText_white)

lemma tokenize_trim_Nil: "trim s = [] \<Longrightarrow> tokenize (Some s) = []"
  by (simp add: tokenize_white trim_Nil_iff)

lemma split_white:
  "\<forall>c\<in>set s. isWhiteSpace c \<longrightarrow> c = CHR '' '' \<Longrightarrow>
   splitWhen isWhiteSpace s = split (CHR '' '') s"
proof (induction s)
  case Nil
  show ?case by simp
next
  case (Cons c cs)
  then have ih: "splitWhen isWhiteSpace cs = split (CHR '' '') cs" by simp
  from Cons.prems have "isWhiteSpace c \<longleftrightarrow> c = CHR '' ''"
    using isWhiteSpace_space by auto
  then show ?case by (simp add: ih)
qed

subsection \<open>The steps of the specification\<close>

text \<open>The classes and the lowercasing of the source are those of the tables: checked at
  each of the 256 characters.\<close>

lemma isWhiteSpace_all: "\<forall>c. isWhiteSpace c = isSpace c"
  by code_simp

lemma isWordChar_all: "\<forall>c. isWordChar c = isWord c"
  by code_simp

lemma toLowerChar_all: "\<forall>c. toLowerChar c = lowercaseChar c"
  by code_simp

lemma isWhiteSpace_table: "isWhiteSpace c = isSpace c"
  using isWhiteSpace_all by blast

lemma isWordChar_table: "isWordChar c = isWord c"
  using isWordChar_all by blast

lemma toLowerChar_table: "toLowerChar c = lowercaseChar c"
  using toLowerChar_all by blast

lemma isWhiteSpace_isSpace: "isWhiteSpace = isSpace"
  by (rule ext) (rule isWhiteSpace_table)

lemma toLowerCase_lowercase: "toLowerCase s = lowercase s"
  by (simp add: toLowerCase_def lowercase_def toLowerChar_table)

lemma replaceNonWord_replaceOthers: "replaceNonWord s = replaceOthers s"
  by (simp add: replaceNonWord_def replaceOthers_def isWhiteSpace_table isWordChar_table)

lemma collapseRuns_space:
  "isSpace c \<Longrightarrow> collapseRuns (c # cs) = CHR '' '' # collapseRuns (dropWhile isSpace cs)"
proof (induction cs arbitrary: c)
  case Nil
  then show ?case by simp
next
  case (Cons d ds)
  show ?case
  proof (cases "isSpace d")
    case True
    with Cons.prems have "collapseRuns (c # d # ds) = collapseRuns (d # ds)" by simp
    also have "\<dots> = CHR '' '' # collapseRuns (dropWhile isSpace ds)"
      using True by (rule Cons.IH)
    finally show ?thesis using True by simp
  next
    case False
    with Cons.prems show ?thesis by simp
  qed
qed

lemma collapseRuns_other:
  "\<not> isSpace c \<Longrightarrow> collapseRuns (c # cs) = c # collapseRuns cs"
  by (cases cs) simp_all

lemma collapseSpaces_collapseRuns: "collapseSpaces s = collapseRuns s"
proof (induction s rule: collapseSpaces.induct)
  case 1
  show ?case by simp
next
  case (2 c cs)
  show ?case
  proof (cases "isSpace c")
    case True
    then have w: "isWhiteSpace c" by (simp add: isWhiteSpace_table)
    from 2(1) [OF w] True w show ?thesis
      by (simp add: collapseRuns_space isWhiteSpace_isSpace)
  next
    case False
    then have w: "\<not> isWhiteSpace c" by (simp add: isWhiteSpace_table)
    from 2(2) [OF w] False w show ?thesis
      by (simp add: collapseRuns_other)
  qed
qed

lemma stripLeading_dropWhile: "stripLeading s = dropWhile isWhiteSpace s"
  by (induction s) (simp_all add: isWhiteSpace_table)

lemma trim_stripSpace: "trim s = stripSpace s"
  by (simp add: trim_def stripSpace_def stripLeading_dropWhile)

lemma split_space:
  "\<forall>c\<in>set s. isSpace c \<longrightarrow> c = CHR '' '' \<Longrightarrow> splitWhen isSpace s = split (CHR '' '') s"
  using split_white [of s] by (simp add: isWhiteSpace_isSpace)

subsection \<open>Sets\<close>

lemma newSet_acc:
  "set (fold (\<lambda>x acc. if x \<in> set acc then acc else acc @ [x]) xs acc) = set acc \<union> set xs
   \<and> (distinct acc \<longrightarrow> distinct (fold (\<lambda>x acc. if x \<in> set acc then acc else acc @ [x]) xs acc))"
  by (induction xs arbitrary: acc) auto

lemma set_newSet: "set (newSet xs) = set xs"
  using newSet_acc [of xs "[]"] by (simp add: newSet_def)

lemma distinct_newSet: "distinct (newSet xs)"
  using newSet_acc [of xs "[]"] by (simp add: newSet_def)

lemma count_list_distinct:
  "distinct xs \<Longrightarrow> count_list xs x = (if x \<in> set xs then 1 else 0)"
  by (induction xs) auto

lemma count_list_newSet: "count_list (newSet xs) x = (if x \<in> set xs then 1 else 0)"
  using count_list_distinct [OF distinct_newSet, of xs x] by (simp add: set_newSet)

subsection \<open>Dictionaries\<close>

lemma map_of_setProp:
  "map_of (setProp k v m) t = (if t = k \<and> k \<noteq> ''__proto__'' then Some v else map_of m t)"
  by (simp add: setProp_def update_conv')

lemma distinct_setProp: "distinct (map fst m) \<Longrightarrow> distinct (map fst (setProp k v m))"
  by (simp add: setProp_def distinct_update)

lemma keys_setProp:
  "fst ` set (setProp k v m) = (if k = ''__proto__'' then fst ` set m else insert k (fst ` set m))"
  by (simp add: setProp_def dom_update)

lemma getProp_ordinary: "t \<notin> set inheritedNames \<Longrightarrow> getProp m t = map_of m t"
  by (simp add: getProp_def split: option.splits)

lemma getProp_own: "map_of m t = Some v \<Longrightarrow> getProp m t = Some v"
  by (simp add: getProp_def)

lemma proto_inherited: "''__proto__'' \<in> set inheritedNames"
  by (simp add: inheritedNames_def)

lemma distinct_increment: "distinct (map fst m) \<Longrightarrow> distinct (map fst (increment x m))"
  by (simp add: increment_def distinct_setProp)

lemma distinct_fold_increment:
  "distinct (map fst m) \<Longrightarrow> distinct (map fst (fold increment xs m))"
  by (induction xs arbitrary: m) (simp_all add: distinct_increment)

lemma keys_fold_increment:
  "fst ` set (fold increment xs m) = fst ` set m \<union> (set xs - {''__proto__''})"
  by (induction xs arbitrary: m) (auto simp: increment_def keys_setProp)

text \<open>Counting a term that is not the name of an inherited property.\<close>

lemma increment_other: "t \<noteq> x \<Longrightarrow> map_of (increment x m) t = map_of m t"
  by (simp add: increment_def map_of_setProp)

lemma increment_same:
  assumes "t \<notin> set inheritedNames"
  shows "map_of (increment t m) t = Some (jsAdd (orElse (map_of m t) (Num 0)) (Num 1))"
proof -
  from assms have "t \<noteq> ''__proto__''" using proto_inherited by auto
  then show ?thesis by (simp add: increment_def map_of_setProp getProp_ordinary [OF assms])
qed

lemma orElse_Num: "orElse (Some (Num r)) (Num 0) = Num r"
  by (simp add: orElse_def truthy_def)

lemma count_fold_increment:
  assumes o: "t \<notin> set inheritedNames"
  shows "orElse (map_of m t) (Num 0) = Num r \<Longrightarrow>
         map_of (fold increment xs m) t =
           (if t \<in> set xs then Some (Num (r + real (count_list xs t))) else map_of m t)"
proof (induction xs arbitrary: m r)
  case Nil
  show ?case by simp
next
  case (Cons x xs)
  show ?case
  proof (cases "x = t")
    case True
    have s: "map_of (increment t m) t = Some (Num (r + 1))"
      using Cons.prems by (simp add: increment_same [OF o])
    then have "orElse (map_of (increment t m) t) (Num 0) = Num (r + 1)"
      by (simp add: orElse_Num)
    from Cons.IH [OF this] s True show ?thesis by (simp add: add.assoc)
  next
    case False
    then have s: "map_of (increment x m) t = map_of m t" by (simp add: increment_other)
    with Cons.prems have "orElse (map_of (increment x m) t) (Num 0) = Num r" by simp
    from Cons.IH [OF this] s False show ?thesis by simp
  qed
qed

lemma map_of_counts:
  "t \<notin> set inheritedNames \<Longrightarrow>
   map_of (fold increment xs []) t =
     (if t \<in> set xs then Some (Num (real (count_list xs t))) else None)"
  using count_fold_increment [of t "[]" 0 xs] by (simp add: orElse_def)

lemma getProp_inherited:
  "inheritedOther m \<Longrightarrow> t \<in> set inheritedNames \<Longrightarrow> getProp m t = Some Other"
  by (auto simp: inheritedOther_def getProp_def split: option.splits)

lemma inheritedOther_increment: "inheritedOther m \<Longrightarrow> inheritedOther (increment x m)"
proof (cases "x \<in> set inheritedNames")
  case True
  assume i: "inheritedOther m"
  then have "getProp m x = Some Other" using True by (rule getProp_inherited)
  then have "increment x m = setProp x Other m"
    by (simp add: increment_def orElse_def truthy_def)
  with i show ?thesis by (simp add: inheritedOther_def map_of_setProp)
next
  case False
  assume i: "inheritedOther m"
  show ?thesis
    unfolding inheritedOther_def
  proof
    fix t assume t: "t \<in> set inheritedNames"
    with False have "t \<noteq> x" by auto
    then have "map_of (increment x m) t = map_of m t" by (rule increment_other)
    with i t show "map_of (increment x m) t = None \<or> map_of (increment x m) t = Some Other"
      by (simp add: inheritedOther_def)
  qed
qed

lemma inheritedOther_fold: "inheritedOther m \<Longrightarrow> inheritedOther (fold increment xs m)"
  by (induction xs arbitrary: m) (simp_all add: inheritedOther_increment)

lemma inheritedOther_Nil: "inheritedOther []"
  by (simp add: inheritedOther_def)

subsection \<open>slice, sort\<close>

lemma slice0_take: "\<exists>n. slice0 k xs = take n xs"
  by (auto simp: slice0_def)

lemma length_slice0: "0 \<le> k \<Longrightarrow> length (slice0 k xs) \<le> nat k"
  by (simp add: slice0_def)

lemma length_slice0_le: "length (slice0 k xs) \<le> length xs"
  using slice0_take [of k xs] by auto

lemma set_slice0: "set (slice0 k xs) \<subseteq> set xs"
  using slice0_take [of k xs] by (auto dest: in_set_takeD)

lemma prefix_slice0: "prefix (slice0 k xs) xs"
  using slice0_take [of k xs] by (auto simp: take_is_prefix)

lemma retrieve_cases:
  "retrieve documents query topK = [] \<or>
   retrieve documents query topK =
     slice0 topK (sort_key (\<lambda>d. - numberOf (score d))
       (filter (\<lambda>d. jsPositive (score d)) (map (withScore (queryVec (tokenize query))) documents)))"
  by (simp add: retrieve_def Let_def split: option.splits)

lemma retrieve_unfold:
  "tokenize query \<noteq> [] \<Longrightarrow>
   retrieve documents query topK =
     slice0 topK (sort_key (\<lambda>d. - numberOf (score d))
       (filter (\<lambda>d. jsPositive (score d)) (map (withScore (queryVec (tokenize query))) documents)))"
proof (cases query)
  case None
  assume "tokenize query \<noteq> []"
  with None show ?thesis by (simp add: tokenize_def)
next
  case (Some q)
  assume t: "tokenize query \<noteq> []"
  with Some have "q \<noteq> []" by (auto simp: tokenize_def)
  moreover from t Some have "trim q \<noteq> []" using tokenize_trim_Nil [of q] by auto
  ultimately show ?thesis using t Some by (simp add: retrieve_def Let_def)
qed

lemma retrieve_no_terms: "tokenize query = [] \<Longrightarrow> retrieve documents query topK = []"
  by (cases query) (auto simp: retrieve_def Let_def)

lemma jsPositive_Num: "jsPositive v \<Longrightarrow> \<exists>r. v = Num r \<and> 0 < r"
  by (cases v) simp_all

text \<open>A stable sort keeps the order of the elements that a predicate finer than the key
  selects.\<close>

lemma filter_sort_key_finer:
  assumes "\<And>x y. x \<in> set xs \<Longrightarrow> y \<in> set xs \<Longrightarrow> g x = s \<Longrightarrow> g y = s \<Longrightarrow> f x = f y"
  shows "filter (\<lambda>x. g x = s) (sort_key f xs) = filter (\<lambda>x. g x = s) xs"
proof (cases "\<exists>x\<in>set xs. g x = s")
  case False
  then have "filter (\<lambda>x. g x = s) xs = []" by (simp add: filter_empty_conv)
  moreover from False have "filter (\<lambda>x. g x = s) (sort_key f xs) = []"
    by (simp add: filter_empty_conv)
  ultimately show ?thesis by simp
next
  case True
  then obtain x0 where x0: "x0 \<in> set xs" "g x0 = s" by blast
  have key: "g y = s \<longleftrightarrow> f y = f x0 \<and> g y = s" if "y \<in> set xs" for y
    using assms [OF that x0(1) _ x0(2)] by blast
  have "filter (\<lambda>x. g x = s) (sort_key f xs) =
      filter (\<lambda>x. g x = s) (filter (\<lambda>x. f x = f x0) (sort_key f xs))"
    unfolding filter_filter by (rule filter_cong) (use key in auto)
  also have "\<dots> = filter (\<lambda>x. g x = s) (filter (\<lambda>x. f x = f x0) xs)"
    by (simp only: sort_key_stable)
  also have "\<dots> = filter (\<lambda>x. g x = s) xs"
    unfolding filter_filter by (rule filter_cong) (use key in auto)
  finally show ?thesis .
qed

lemma filter_filter_subset:
  "(\<And>x. P x \<Longrightarrow> Q x) \<Longrightarrow> filter P (filter Q xs) = filter P xs"
  by (induction xs) auto

lemma filter_filter_disjoint:
  "(\<And>x. P x \<Longrightarrow> \<not> Q x) \<Longrightarrow> filter P (filter Q xs) = []"
  by (induction xs) auto

lemma retrieved_sorted:
  "sorted_wrt (\<lambda>a b. jsGe (score a) (score b))
     (sort_key (\<lambda>d. - numberOf (score d)) (filter (\<lambda>d. jsPositive (score d)) xs))"
proof -
  let ?pos = "filter (\<lambda>d. jsPositive (score d)) xs"
  let ?srt = "sort_key (\<lambda>d. - numberOf (score d)) ?pos"
  have "sorted (map (\<lambda>d. - numberOf (score d)) ?srt)" by (rule sorted_sort_key)
  then have s: "sorted_wrt (\<lambda>a b. numberOf (score b) \<le> numberOf (score a)) ?srt"
    by (simp add: sorted_map)
  have "jsGe (score a) (score b)"
    if "a \<in> set ?srt" "b \<in> set ?srt" "numberOf (score b) \<le> numberOf (score a)" for a b
  proof -
    from that(1) have "jsPositive (score a)" by simp
    then obtain x where x: "score a = Num x" using jsPositive_Num by blast
    from that(2) have "jsPositive (score b)" by simp
    then obtain y where y: "score b = Num y" using jsPositive_Num by blast
    from that(3) x y show ?thesis by simp
  qed
  with s show ?thesis by (rule sorted_wrt_mono_rel [rotated])
qed

lemma retrieved_stable:
  "filter (\<lambda>d. score d = s)
     (sort_key (\<lambda>d. - numberOf (score d)) (filter (\<lambda>d. jsPositive (score d)) xs))
   = filter (\<lambda>d. score d = s) (filter (\<lambda>d. jsPositive (score d)) xs)"
  by (rule filter_sort_key_finer) simp

subsection \<open>The bound of the cosine\<close>

lemma cauchy_step:
  fixes d m1 m2 a b :: real
  assumes m1: "0 \<le> m1" and m2: "0 \<le> m2" and d: "d\<^sup>2 \<le> m1 * m2"
  shows "(d + a * b)\<^sup>2 \<le> (m1 + a * a) * (m2 + b * b)"
proof -
  have "(2 * d * a * b)\<^sup>2 = 4 * d\<^sup>2 * (a\<^sup>2 * b\<^sup>2)"
    by (simp add: power2_eq_square)
  also have "\<dots> \<le> 4 * (m1 * m2) * (a\<^sup>2 * b\<^sup>2)"
    using d by (intro mult_right_mono mult_left_mono) simp_all
  also have "\<dots> \<le> 4 * (m1 * m2) * (a\<^sup>2 * b\<^sup>2) + (m1 * b\<^sup>2 - m2 * a\<^sup>2)\<^sup>2"
    by simp
  also have "\<dots> = (m1 * b\<^sup>2 + m2 * a\<^sup>2)\<^sup>2"
    by (simp add: power2_eq_square algebra_simps)
  finally have "(2 * d * a * b)\<^sup>2 \<le> (m1 * b\<^sup>2 + m2 * a\<^sup>2)\<^sup>2" .
  moreover have "0 \<le> m1 * b\<^sup>2 + m2 * a\<^sup>2"
    using m1 m2 by simp
  ultimately have "2 * d * a * b \<le> m1 * b\<^sup>2 + m2 * a\<^sup>2"
    by (rule power2_le_imp_le)
  then have "d\<^sup>2 + 2 * d * a * b + a\<^sup>2 * b\<^sup>2 \<le> m1 * m2 + m1 * b\<^sup>2 + m2 * a\<^sup>2 + a\<^sup>2 * b\<^sup>2"
    using d by simp
  moreover have "(d + a * b)\<^sup>2 = d\<^sup>2 + 2 * d * a * b + a\<^sup>2 * b\<^sup>2"
    by (simp add: power2_eq_square algebra_simps)
  moreover have "(m1 + a * a) * (m2 + b * b) = m1 * m2 + m1 * b\<^sup>2 + m2 * a\<^sup>2 + a\<^sup>2 * b\<^sup>2"
    by (simp add: power2_eq_square algebra_simps)
  ultimately show ?thesis by simp
qed

lemma cauchy_update:
  assumes "cauchy (dp, ma, mb)"
  shows "cauchy (jsAdd dp (jsMul v1 v2), jsAdd ma (jsMul v1 v1), jsAdd mb (jsMul v2 v2))"
proof (cases "\<exists>x y. v1 = Num x \<and> v2 = Num y")
  case True
  then obtain x y where v: "v1 = Num x" "v2 = Num y" by blast
  show ?thesis
  proof (cases "\<exists>d a b. dp = Num d \<and> ma = Num a \<and> mb = Num b")
    case True
    then obtain d a b where acc: "dp = Num d" "ma = Num a" "mb = Num b" by blast
    with assms have "0 \<le> a" "0 \<le> b" "d\<^sup>2 \<le> a * b" by simp_all
    then have "(d + x * y)\<^sup>2 \<le> (a + x * x) * (b + y * y)" by (rule cauchy_step)
    moreover have "0 \<le> a + x * x" using \<open>0 \<le> a\<close> by simp
    moreover have "0 \<le> b + y * y" using \<open>0 \<le> b\<close> by simp
    ultimately show ?thesis by (simp add: v acc)
  next
    case False
    with assms show ?thesis
      by (cases dp; cases ma; cases mb) (simp_all add: v)
  qed
next
  case False
  then have p: "jsMul v1 v2 = NaN" by (cases v1; cases v2) simp_all
  have "jsAdd dp NaN = NaN" "jsAdd ma (jsMul v1 v1) \<noteq> Other" "jsAdd mb (jsMul v2 v2) \<noteq> Other"
    using assms by (cases dp; cases ma; cases mb; cases v1; cases v2; simp)+
  then show ?thesis by (simp add: p)
qed

lemma cauchy_cosineStep: "cauchy acc \<Longrightarrow> cauchy (cosineStep vec1 vec2 t acc)"
  by (cases acc) (simp add: cosineStep_def Let_def cauchy_update)

lemma cauchy_fold: "cauchy acc \<Longrightarrow> cauchy (fold (cosineStep vec1 vec2) ts acc)"
  by (induction ts arbitrary: acc) (simp_all add: cauchy_cosineStep)

lemma cauchy_cosineSums: "cauchy (cosineSums vec1 vec2)"
proof -
  have "cauchy (Num 0, Num 0, Num 0)" by simp
  then show ?thesis unfolding cosineSums_def by (rule cauchy_fold)
qed

lemma cosineSimilarity_le_1:
  assumes "cosineSimilarity vec1 vec2 = Num x"
  shows "x \<le> 1"
proof -
  obtain dp ma mb where s: "cosineSums vec1 vec2 = (dp, ma, mb)"
    by (cases "cosineSums vec1 vec2") auto
  have c: "cauchy (dp, ma, mb)" using cauchy_cosineSums [of vec1 vec2] s by simp
  show ?thesis
  proof (cases "jsMul (jsSqrt ma) (jsSqrt mb) = Num 0")
    case True
    with s assms show ?thesis by (simp add: cosineSimilarity_def)
  next
    case False
    with s assms have q: "jsDiv dp (jsMul (jsSqrt ma) (jsSqrt mb)) = Num x"
      by (simp add: cosineSimilarity_def Let_def)
    then obtain d e where d: "dp = Num d" and e: "jsMul (jsSqrt ma) (jsSqrt mb) = Num e"
      by (cases dp; cases "jsMul (jsSqrt ma) (jsSqrt mb)") simp_all
    from e obtain a b where ab: "ma = Num a" "mb = Num b"
      by (cases ma; cases mb) (simp_all split: if_splits)
    from c d ab have m1: "0 \<le> a" and m2: "0 \<le> b" and dd: "d\<^sup>2 \<le> a * b" by simp_all
    from e ab m1 m2 have ev: "e = sqrt a * sqrt b" by simp
    from False e have "e \<noteq> 0" by simp
    have nn: "0 \<le> sqrt a * sqrt b" using m1 m2 by simp
    with \<open>e \<noteq> 0\<close> ev have pos: "0 < sqrt a * sqrt b" by linarith
    have "(sqrt a * sqrt b)\<^sup>2 = a * b"
      using m1 m2 by (simp add: power_mult_distrib)
    with dd have "d\<^sup>2 \<le> (sqrt a * sqrt b)\<^sup>2" by simp
    then have "d \<le> sqrt a * sqrt b" using nn by (rule power2_le_imp_le)
    then have "d / (sqrt a * sqrt b) \<le> 1" using pos by simp
    moreover from q d e ev \<open>e \<noteq> 0\<close> have "x = d / (sqrt a * sqrt b)" by simp
    ultimately show ?thesis by simp
  qed
qed

subsection \<open>The index\<close>

lemma tokenize_contentOrEmpty: "tokenize (contentOrEmpty d) = tokenize (content d)"
  by (simp add: contentOrEmpty_def tokenize_def split: option.splits)

lemma orElse_fold_increment:
  assumes o: "t \<notin> set inheritedNames" and r: "orElse (map_of m t) (Num 0) = Num r"
  shows "orElse (map_of (fold increment xs m) t) (Num 0) = Num (r + real (count_list xs t))"
  using count_fold_increment [OF o r, of xs] r
  by (simp add: orElse_Num)

lemma orElse_termDocFreq_acc:
  assumes o: "t \<notin> set inheritedNames"
  shows "orElse (map_of m t) (Num 0) = Num r \<Longrightarrow>
     orElse (map_of (fold (\<lambda>doc. fold increment (newSet (tokenize (content doc))))
                         documents m) t) (Num 0)
     = Num (r + real (length (filter (\<lambda>d. t \<in> set (tokenize (content d))) documents)))"
proof (induction documents arbitrary: m r)
  case Nil
  then show ?case by simp
next
  case (Cons d ds)
  have "orElse (map_of (fold increment (newSet (tokenize (content d))) m) t) (Num 0)
      = Num (r + real (count_list (newSet (tokenize (content d))) t))"
    using o Cons.prems by (rule orElse_fold_increment)
  from Cons.IH [OF this] show ?case
    by (simp add: count_list_newSet add.assoc)
qed

lemma orElse_termDocFreq:
  "t \<notin> set inheritedNames \<Longrightarrow>
   orElse (map_of (termDocFreq documents) t) (Num 0) = Num (real (df t documents))"
  using orElse_termDocFreq_acc [of t "[]" 0 documents]
  by (simp add: termDocFreq_def df_def tokenize_contentOrEmpty orElse_def)

lemma orElse_one:
  assumes o: "t \<notin> set inheritedNames" and p: "0 < df t documents"
  shows "orElse (getProp (termDocFreq documents) t) (Num 1) = Num (real (df t documents))"
proof -
  have "orElse (map_of (termDocFreq documents) t) (Num 0) = Num (real (df t documents))"
    using o by (rule orElse_termDocFreq)
  with p have "orElse (map_of (termDocFreq documents) t) (Num 1) = Num (real (df t documents))"
    by (auto simp: orElse_def split: option.splits if_splits)
  then show ?thesis by (simp add: getProp_ordinary [OF o])
qed

lemma inheritedOther_termDocFreq_acc:
  "inheritedOther m \<Longrightarrow>
   inheritedOther (fold (\<lambda>doc m. fold increment (newSet (tokenize (contentOrEmpty doc))) m)
                        documents m)"
  by (induction documents arbitrary: m) (simp_all add: inheritedOther_fold)

lemma inheritedOther_termDocFreq: "inheritedOther (termDocFreq documents)"
  unfolding termDocFreq_def by (rule inheritedOther_termDocFreq_acc) (rule inheritedOther_Nil)

lemma map_of_fold_setProp:
  "map_of (fold (\<lambda>k acc. setProp k (f k) acc) ks m) t =
     (if t \<in> set ks \<and> t \<noteq> ''__proto__'' then Some (f t) else map_of m t)"
  by (induction ks arbitrary: m) (simp_all add: map_of_setProp)

lemma distinct_fold_setProp:
  "distinct (map fst m) \<Longrightarrow> distinct (map fst (fold (\<lambda>k acc. setProp k (f k) acc) ks m))"
  by (induction ks arbitrary: m) (simp_all add: distinct_setProp)

lemma keys_counts: "set (map fst (fold increment xs [])) = set xs - {''__proto__''}"
  using keys_fold_increment [of xs "[]"] by simp

lemma distinct_docVector: "distinct (map fst (docVector n tdf d))"
  by (simp add: docVector_def Let_def distinct_fold_setProp)

lemma map_of_docVector:
  "map_of (docVector n tdf d) t =
     (if t \<in> set (tokenize (content d)) \<and> t \<noteq> ''__proto__''
      then Some (jsMul (jsDiv (operand (getProp (fold increment (tokenize (content d)) []) t))
                              (Num (max 1 (real (length (tokenize (content d)))))))
                       (jsLog (jsDiv (Num n) (orElse (getProp tdf t) (Num 1)))))
      else None)"
  unfolding docVector_def Let_def
  by (simp only: map_of_fold_setProp keys_counts tokenize_contentOrEmpty) simp

lemma tf_ordinary:
  assumes o: "t \<notin> set inheritedNames" and t: "t \<in> set terms"
  shows "jsDiv (operand (getProp (fold increment terms []) t)) (Num (max 1 (real (length terms))))
         = Num (tf t terms)"
proof -
  have "getProp (fold increment terms []) t = Some (Num (real (count_list terms t)))"
    using t by (simp add: getProp_ordinary [OF o] map_of_counts [OF o])
  moreover have "max 1 (real (length terms)) \<noteq> 0" by simp
  ultimately show ?thesis by (simp add: operand_def tf_def del: max.absorb1 max.absorb2 max.absorb3 max.absorb4)
qed

lemma df_pos: "d \<in> set documents \<Longrightarrow> t \<in> set (tokenize (content d)) \<Longrightarrow> 0 < df t documents"
  by (auto simp: df_def filter_empty_conv)

lemma df_le: "df t documents \<le> length documents"
  by (simp add: df_def)

lemma length_calculateTFIDF: "length (calculateTFIDF documents) = length documents"
  by (simp add: calculateTFIDF_def Let_def)

lemma tfidf_calculateTFIDF:
  "i < length documents \<Longrightarrow>
   tfidf (calculateTFIDF documents ! i) =
     docVector (real (length documents)) (termDocFreq documents) (documents ! i)"
  by (auto simp: calculateTFIDF_def Let_def)

lemma tf_pos_iff: "0 < tf t terms \<longleftrightarrow> t \<in> set terms"
proof -
  have "0 < max 1 (real (length terms))" by simp
  then have "0 < tf t terms \<longleftrightarrow> 0 < real (count_list terms t)"
    unfolding tf_def by (simp only: zero_less_divide_iff) auto
  also have "\<dots> \<longleftrightarrow> t \<in> set terms"
    using count_list_0_iff [of terms t] by auto
  finally show ?thesis .
qed

lemma weight_ordinary:
  assumes i: "i < length documents" and o: "t \<notin> set inheritedNames"
  shows "map_of (tfidf (calculateTFIDF documents ! i)) t =
     (if t \<in> set (tokenize (content (documents ! i)))
      then Some (Num (tf t (tokenize (content (documents ! i))) * idf t documents))
      else None)"
proof (cases "t \<in> set (tokenize (content (documents ! i)))")
  case False
  then show ?thesis by (simp add: tfidf_calculateTFIDF [OF i] map_of_docVector)
next
  case True
  from o have np: "t \<noteq> ''__proto__''" using proto_inherited by auto
  from i have "documents ! i \<in> set documents" by simp
  then have p: "0 < df t documents" using True by (rule df_pos)
  have "df t documents \<le> length documents" by (rule df_le)
  with p have "0 < length documents" by linarith
  with p have q: "0 < real (length documents) / real (df t documents)"
    by (simp add: zero_less_divide_iff)
  have "jsLog (jsDiv (Num (real (length documents)))
                     (orElse (getProp (termDocFreq documents) t) (Num 1)))
        = Num (idf t documents)"
    using p q by (simp add: orElse_one [OF o p] idf_def)
  with True np show ?thesis
    by (simp add: tfidf_calculateTFIDF [OF i] map_of_docVector tf_ordinary [OF o True])
qed

lemma weight_inherited:
  assumes i: "i < length documents" and o: "t \<in> set inheritedNames"
  shows "map_of (tfidf (calculateTFIDF documents ! i)) t = None \<or>
         map_of (tfidf (calculateTFIDF documents ! i)) t = Some NaN"
proof -
  have "getProp (termDocFreq documents) t = Some Other"
    using inheritedOther_termDocFreq o by (rule getProp_inherited)
  then have "jsLog (jsDiv (Num (real (length documents)))
                     (orElse (getProp (termDocFreq documents) t) (Num 1))) = NaN"
    by (simp add: orElse_def truthy_def)
  then show ?thesis
    by (cases "jsDiv (operand (getProp (fold increment (tokenize (content (documents ! i))) []) t))
                     (Num (max 1 (real (length (tokenize (content (documents ! i)))))))")
       (simp_all add: tfidf_calculateTFIDF [OF i] map_of_docVector)
qed

subsection \<open>Vectors without a truthy weight\<close>

lemma idf_everywhere:
  assumes "\<forall>d\<in>set documents. t \<in> set (tokenize (content d))" and "documents \<noteq> []"
  shows "idf t documents = 0"
proof -
  have "filter (\<lambda>d. t \<in> set (tokenize (content d))) documents = documents"
    using assms(1) by (simp add: filter_id_conv)
  then have "df t documents = length documents" by (simp add: df_def)
  moreover have "real (length documents) \<noteq> 0" using assms(2) by simp
  ultimately show ?thesis by (simp add: idf_def)
qed

lemma falsy_lookup:
  assumes "\<forall>w\<in>snd ` set v. w = Num 0 \<or> w = NaN"
  shows "orElse (getProp v t) (Num 0) = Num 0 \<or> orElse (getProp v t) (Num 0) = Other"
proof (cases "map_of v t")
  case None
  then show ?thesis by (simp add: getProp_def orElse_def truthy_def)
next
  case (Some w)
  then have "(t, w) \<in> set v" by (rule map_of_SomeD)
  then have "w \<in> snd ` set v" by force
  with assms have "w = Num 0 \<or> w = NaN" by blast
  with Some show ?thesis by (auto simp: getProp_def orElse_def truthy_def)
qed

lemma falsy_step:
  assumes z: "\<forall>w\<in>snd ` set v. w = Num 0 \<or> w = NaN"
    and a: "(dp = Num 0 \<or> dp = NaN) \<and> (mb = Num 0 \<or> mb = NaN)"
    and s: "cosineStep qv v t (dp, ma, mb) = (dp', ma', mb')"
  shows "(dp' = Num 0 \<or> dp' = NaN) \<and> (mb' = Num 0 \<or> mb' = NaN)"
proof -
  let ?v1 = "orElse (getProp qv t) (Num 0)"
  let ?v2 = "orElse (getProp v t) (Num 0)"
  have v2: "?v2 = Num 0 \<or> ?v2 = Other" using z by (rule falsy_lookup)
  then have "jsMul ?v1 ?v2 = Num 0 \<or> jsMul ?v1 ?v2 = NaN" by (cases ?v1) auto
  moreover from v2 have "jsMul ?v2 ?v2 = Num 0 \<or> jsMul ?v2 ?v2 = NaN" by auto
  moreover from s have "dp' = jsAdd dp (jsMul ?v1 ?v2)" "mb' = jsAdd mb (jsMul ?v2 ?v2)"
    by (simp_all add: cosineStep_def Let_def)
  ultimately show ?thesis using a by auto
qed

lemma falsy_fold:
  assumes z: "\<forall>w\<in>snd ` set v. w = Num 0 \<or> w = NaN"
  shows "(dp = Num 0 \<or> dp = NaN) \<and> (mb = Num 0 \<or> mb = NaN) \<Longrightarrow>
         fold (cosineStep qv v) ts (dp, ma, mb) = (dp', ma', mb') \<Longrightarrow>
         (dp' = Num 0 \<or> dp' = NaN) \<and> (mb' = Num 0 \<or> mb' = NaN)"
proof (induction ts arbitrary: dp ma mb)
  case Nil
  then show ?case by simp
next
  case (Cons t ts)
  obtain d1 a1 b1 where s: "cosineStep qv v t (dp, ma, mb) = (d1, a1, b1)"
    by (cases "cosineStep qv v t (dp, ma, mb)") auto
  have "(d1 = Num 0 \<or> d1 = NaN) \<and> (b1 = Num 0 \<or> b1 = NaN)"
    using z Cons.prems(1) s by (rule falsy_step)
  moreover from Cons.prems(2) s have "fold (cosineStep qv v) ts (d1, a1, b1) = (dp', ma', mb')"
    by simp
  ultimately show ?case by (rule Cons.IH)
qed

lemma falsy_cosine:
  assumes z: "\<forall>w\<in>snd ` set v. w = Num 0 \<or> w = NaN"
  shows "cosineSimilarity qv v = Num 0 \<or> cosineSimilarity qv v = NaN"
proof -
  obtain dp ma mb where s: "cosineSums qv v = (dp, ma, mb)"
    by (cases "cosineSums qv v") auto
  have "(dp = Num 0 \<or> dp = NaN) \<and> (mb = Num 0 \<or> mb = NaN)"
    using z _ s [unfolded cosineSums_def] by (rule falsy_fold) simp
  then have "jsSqrt mb = Num 0 \<or> jsSqrt mb = NaN" by auto
  then have d: "jsMul (jsSqrt ma) (jsSqrt mb) = Num 0 \<or> jsMul (jsSqrt ma) (jsSqrt mb) = NaN"
    by (cases "jsSqrt ma") auto
  then show ?thesis
  proof
    assume "jsMul (jsSqrt ma) (jsSqrt mb) = Num 0"
    with s show ?thesis by (simp add: cosineSimilarity_def)
  next
    assume n: "jsMul (jsSqrt ma) (jsSqrt mb) = NaN"
    then have "jsDiv dp (jsMul (jsSqrt ma) (jsSqrt mb)) = NaN" by (cases dp) simp_all
    with s n show ?thesis by (simp add: cosineSimilarity_def Let_def)
  qed
qed

lemma single_document_weights:
  "\<forall>e\<in>set (calculateTFIDF [d]). \<forall>w\<in>snd ` set (tfidf e). w = Num 0 \<or> w = NaN"
proof -
  let ?e = "calculateTFIDF [d] ! 0"
  have e: "calculateTFIDF [d] = [?e]" by (simp add: calculateTFIDF_def Let_def)
  have "w = Num 0 \<or> w = NaN" if "w \<in> snd ` set (tfidf ?e)" for w
  proof -
    from that obtain t where tw: "(t, w) \<in> set (tfidf ?e)" by auto
    have "distinct (map fst (tfidf ?e))"
      by (simp add: tfidf_calculateTFIDF distinct_docVector)
    with tw have m: "map_of (tfidf ?e) t = Some w" by simp
    show ?thesis
    proof (cases "t \<in> set inheritedNames")
      case True
      then show ?thesis using weight_inherited [of 0 "[d]" t] m by simp
    next
      case False
      have w: "map_of (tfidf ?e) t =
          (if t \<in> set (tokenize (content ([d] ! 0)))
           then Some (Num (tf t (tokenize (content ([d] ! 0))) * idf t [d])) else None)"
        using _ False by (rule weight_ordinary) simp
      with m have "t \<in> set (tokenize (content d))" by (simp split: if_splits)
      then have "idf t [d] = 0" using idf_everywhere [of "[d]" t] by simp
      with m w show ?thesis by (simp split: if_splits)
    qed
  qed
  then show ?thesis by (subst e) simp
qed

lemma single_document_cosine:
  "e \<in> set (RetrievalEngine (Some [d])) \<Longrightarrow> \<not> jsPositive (cosineSimilarity qv (tfidf e))"
proof -
  assume "e \<in> set (RetrievalEngine (Some [d]))"
  then have "\<forall>w\<in>snd ` set (tfidf e). w = Num 0 \<or> w = NaN"
    using single_document_weights [of d] by (simp add: RetrievalEngine_def)
  then have "cosineSimilarity qv (tfidf e) = Num 0 \<or> cosineSimilarity qv (tfidf e) = NaN"
    by (rule falsy_cosine)
  then show ?thesis by auto
qed

lemma single_document_retrieve: "retrieve (RetrievalEngine (Some [d])) query topK = []"
proof -
  let ?qv = "queryVec (tokenize query)"
  have "\<forall>e\<in>set (RetrievalEngine (Some [d])). \<not> jsPositive (score (withScore ?qv e))"
    using single_document_cosine [of _ d ?qv] by (simp add: withScore_def)
  then have "filter (\<lambda>d. jsPositive (score d)) (map (withScore ?qv) (RetrievalEngine (Some [d]))) = []"
    by (simp add: filter_empty_conv)
  then show ?thesis
    using retrieve_cases [of "RetrievalEngine (Some [d])" query topK]
    by (auto simp: slice0_def)
qed

lemma single_document_cosine_value:
  "e \<in> set (RetrievalEngine (Some [d])) \<Longrightarrow>
   cosineSimilarity qv (tfidf e) = Num 0 \<or> cosineSimilarity qv (tfidf e) = NaN"
proof -
  assume "e \<in> set (RetrievalEngine (Some [d]))"
  then have "\<forall>w\<in>snd ` set (tfidf e). w = Num 0 \<or> w = NaN"
    using single_document_weights [of d] by (simp add: RetrievalEngine_def)
  then show ?thesis by (rule falsy_cosine)
qed

lemma engine_single: "RetrievalEngine (Some [d]) \<noteq> []"
  by (simp add: RetrievalEngine_def calculateTFIDF_def)

subsection \<open>The three documents\<close>

lemmas evaluate = increment_def setProp_def getProp_def inheritedNames_def orElse_def
  truthy_def operand_def newSet_def contentOrEmpty_def Let_def

lemma tokenize_docA: "tokenize (Some ''ML is a subset of AI'') = [''subset'']"
  by code_simp

lemma tokenize_docB: "tokenize (Some ''Cats are mammals'') = [''cats'', ''are'', ''mammals'']"
  by code_simp

lemma tokenize_docC:
  "tokenize (Some ''Deep learning is part of machine learning'') =
     [''deep'', ''learning'', ''part'', ''machine'', ''learning'']"
  by code_simp

lemma tokenize_machine_learning:
  "tokenize (Some ''machine learning'') = [''machine'', ''learning'']"
  by code_simp

lemma termDocFreq_threeDocs:
  "termDocFreq [docA, docB, docC] =
     [(''subset'', Num 1), (''cats'', Num 1), (''are'', Num 1), (''mammals'', Num 1),
      (''deep'', Num 1), (''learning'', Num 1), (''part'', Num 1), (''machine'', Num 1)]"
  by (simp add: termDocFreq_def docA_def docB_def docC_def
      tokenize_docA tokenize_docB tokenize_docC evaluate)

lemma docVector_docA:
  "docVector 3 [(''subset'', Num 1), (''cats'', Num 1), (''are'', Num 1), (''mammals'', Num 1),
      (''deep'', Num 1), (''learning'', Num 1), (''part'', Num 1), (''machine'', Num 1)] docA
   = [(''subset'', Num (ln 3))]"
  by (simp add: docVector_def docA_def tokenize_docA evaluate)

lemma docVector_docB:
  "docVector 3 [(''subset'', Num 1), (''cats'', Num 1), (''are'', Num 1), (''mammals'', Num 1),
      (''deep'', Num 1), (''learning'', Num 1), (''part'', Num 1), (''machine'', Num 1)] docB
   = [(''cats'', Num (ln 3 / 3)), (''are'', Num (ln 3 / 3)), (''mammals'', Num (ln 3 / 3))]"
  by (simp add: docVector_def docB_def tokenize_docB evaluate)

lemma docVector_docC:
  "docVector 3 [(''subset'', Num 1), (''cats'', Num 1), (''are'', Num 1), (''mammals'', Num 1),
      (''deep'', Num 1), (''learning'', Num 1), (''part'', Num 1), (''machine'', Num 1)] docC
   = [(''deep'', Num (ln 3 / 5)), (''learning'', Num (2 * ln 3 / 5)), (''part'', Num (ln 3 / 5)),
      (''machine'', Num (ln 3 / 5))]"
  by (simp add: docVector_def docC_def tokenize_docC evaluate)

lemma engine_threeDocs:
  "RetrievalEngine (Some threeDocs) =
     [\<lparr>doc_id = 1, title = ''A'', content = Some ''ML is a subset of AI'', timestamp = ''t1'',
       tfidf = [(''subset'', Num (ln 3))]\<rparr>,
      \<lparr>doc_id = 2, title = ''B'', content = Some ''Cats are mammals'', timestamp = ''t2'',
       tfidf = [(''cats'', Num (ln 3 / 3)), (''are'', Num (ln 3 / 3)),
                (''mammals'', Num (ln 3 / 3))]\<rparr>,
      \<lparr>doc_id = 3, title = ''C'', content = Some ''Deep learning is part of machine learning'',
       timestamp = ''t3'',
       tfidf = [(''deep'', Num (ln 3 / 5)), (''learning'', Num (2 * ln 3 / 5)),
                (''part'', Num (ln 3 / 5)), (''machine'', Num (ln 3 / 5))]\<rparr>]"
  by (simp add: RetrievalEngine_def calculateTFIDF_def threeDocs_def termDocFreq_threeDocs
      docVector_docA docVector_docB docVector_docC)
     (simp add: docA_def docB_def docC_def)

lemma queryVec_machine_learning:
  "queryVec [''machine'', ''learning''] = [(''machine'', Num 1), (''learning'', Num 1)]"
  by (simp add: queryVec_def evaluate)

lemma cosine_docA:
  "cosineSimilarity [(''machine'', Num 1), (''learning'', Num 1)] [(''subset'', Num (ln 3))] = Num 0"
  by (simp add: cosineSimilarity_def cosineSums_def cosineStep_def evaluate)

lemma cosine_docB:
  "cosineSimilarity [(''machine'', Num 1), (''learning'', Num 1)]
     [(''cats'', Num (ln 3 / 3)), (''are'', Num (ln 3 / 3)), (''mammals'', Num (ln 3 / 3))] = Num 0"
  by (simp add: cosineSimilarity_def cosineSums_def cosineStep_def evaluate)

lemma sums_docC:
  "cosineSums [(''machine'', Num 1), (''learning'', Num 1)]
     [(''deep'', Num (ln 3 / 5)), (''learning'', Num (2 * ln 3 / 5)), (''part'', Num (ln 3 / 5)),
      (''machine'', Num (ln 3 / 5))]
   = (Num (3 * ln 3 / 5), Num 2, Num (7 * (ln 3 * ln 3) / 25))"
  by (simp add: cosineSums_def cosineStep_def evaluate)

lemma cosine_docC:
  "cosineSimilarity [(''machine'', Num 1), (''learning'', Num 1)]
     [(''deep'', Num (ln 3 / 5)), (''learning'', Num (2 * ln 3 / 5)), (''part'', Num (ln 3 / 5)),
      (''machine'', Num (ln 3 / 5))]
   = Num ((3 * ln 3 / 5) / (sqrt 2 * sqrt (7 * (ln 3 * ln 3) / 25)))
   \<and> 0 < (3 * ln 3 / 5) / (sqrt 2 * sqrt (7 * (ln 3 * ln 3) / 25))"
proof -
  have l: "0 < ln (3::real)" by simp
  then have a: "0 < 7 * (ln 3 * ln 3) / (25::real)" by simp
  then have "0 < sqrt (7 * (ln 3 * ln 3) / 25)" by (simp only: real_sqrt_gt_zero)
  moreover have "0 < sqrt (2::real)" by simp
  ultimately have d: "0 < sqrt 2 * sqrt (7 * (ln 3 * ln 3) / 25)" by (rule mult_pos_pos [rotated])
  have n: "0 < 3 * ln 3 / (5::real)" using l by simp
  from d n have p: "0 < (3 * ln 3 / 5) / (sqrt 2 * sqrt (7 * (ln 3 * ln 3) / 25))"
    by (rule divide_pos_pos [rotated])
  have sq: "jsSqrt (Num (7 * (ln 3 * ln 3) / 25)) = Num (sqrt (7 * (ln 3 * ln 3) / 25))"
    using a by (simp only: jsSqrt.simps) simp
  have "jsMul (jsSqrt (Num 2)) (jsSqrt (Num (7 * (ln 3 * ln 3) / 25)))
      = Num (sqrt 2 * sqrt (7 * (ln 3 * ln 3) / 25))"
    by (simp only: sq) simp
  with d p show ?thesis
    by (simp only: cosineSimilarity_def sums_docC Let_def prod.case) simp
qed

lemma trim_machine_learning: "trim ''machine learning'' \<noteq> []"
  by (simp add: trim_def isWhiteSpace_def)

lemma retrieve_threeDocs:
  "retrieve (RetrievalEngine (Some threeDocs)) (Some ''machine learning'') 3 =
     [\<lparr>doc_id = 3, title = ''C'', content = Some ''Deep learning is part of machine learning'',
       timestamp = ''t3'',
       tfidf = [(''deep'', Num (ln 3 / 5)), (''learning'', Num (2 * ln 3 / 5)),
                (''part'', Num (ln 3 / 5)), (''machine'', Num (ln 3 / 5))],
       score = Num ((3 * ln 3 / 5) / (sqrt 2 * sqrt (7 * (ln 3 * ln 3) / 25)))\<rparr>]"
  using cosine_docC
  by (simp add: retrieve_def trim_machine_learning tokenize_machine_learning
      queryVec_machine_learning engine_threeDocs Let_def)
     (simp add: withScore_def cosine_docA cosine_docB slice0_def)

subsection \<open>The repeated query\<close>

lemma tokenize_docR:
  "tokenize (Some ''machine learning machine learning'') =
     [''machine'', ''learning'', ''machine'', ''learning'']"
  by code_simp

lemma engine_docR:
  "RetrievalEngine (Some [docR]) =
     [\<lparr>doc_id = 4, title = ''R'', content = Some ''machine learning machine learning'',
       timestamp = ''t4'', tfidf = [(''machine'', Num 0), (''learning'', Num 0)]\<rparr>]"
  by (simp add: RetrievalEngine_def calculateTFIDF_def termDocFreq_def docVector_def
      docR_def tokenize_docR evaluate)

lemma cosine_docR_alone:
  "cosineSimilarity [(''machine'', Num 1), (''learning'', Num 1)]
     [(''machine'', Num 0), (''learning'', Num 0)] = Num 0"
  by (simp add: cosineSimilarity_def cosineSums_def cosineStep_def evaluate)

subsection \<open>The word constructor\<close>

lemma tokenize_docK: "tokenize (Some ''Constructor injection'') = [''constructor'', ''injection'']"
  by code_simp

lemma tokenize_constructor: "tokenize (Some ''constructor'') = [''constructor'']"
  by code_simp

lemma queryVec_constructor: "queryVec [''constructor''] = [(''constructor'', Other)]"
  by (simp add: queryVec_def evaluate)

lemma termDocFreq_docK_docB:
  "termDocFreq [docK, docB] =
     [(''constructor'', Other), (''injection'', Num 1), (''cats'', Num 1), (''are'', Num 1),
      (''mammals'', Num 1)]"
  by (simp add: termDocFreq_def docK_def docB_def tokenize_docK tokenize_docB evaluate)

lemma docVector_docK:
  "docVector 2 [(''constructor'', Other), (''injection'', Num 1), (''cats'', Num 1),
      (''are'', Num 1), (''mammals'', Num 1)] docK
   = [(''constructor'', NaN), (''injection'', Num (ln 2 / 2))]"
  by (simp add: docVector_def docK_def tokenize_docK evaluate)

lemma engine_docK:
  "RetrievalEngine (Some [docK]) =
     [\<lparr>doc_id = 5, title = ''K'', content = Some ''Constructor injection'',
       timestamp = ''t5'', tfidf = [(''constructor'', NaN), (''injection'', Num 0)]\<rparr>]"
  by (simp add: RetrievalEngine_def calculateTFIDF_def termDocFreq_def docVector_def
      docK_def tokenize_docK evaluate)

lemma docVector_docB_constructor:
  "docVector 2 [(''constructor'', Other), (''injection'', Num 1), (''cats'', Num 1),
      (''are'', Num 1), (''mammals'', Num 1)] docB
   = [(''cats'', Num (ln 2 / 3)), (''are'', Num (ln 2 / 3)), (''mammals'', Num (ln 2 / 3))]"
  by (simp add: docVector_def docB_def tokenize_docB evaluate)

lemma engine_docK_docB:
  "RetrievalEngine (Some [docK, docB]) =
     [\<lparr>doc_id = 5, title = ''K'', content = Some ''Constructor injection'', timestamp = ''t5'',
       tfidf = [(''constructor'', NaN), (''injection'', Num (ln 2 / 2))]\<rparr>,
      \<lparr>doc_id = 2, title = ''B'', content = Some ''Cats are mammals'', timestamp = ''t2'',
       tfidf = [(''cats'', Num (ln 2 / 3)), (''are'', Num (ln 2 / 3)),
                (''mammals'', Num (ln 2 / 3))]\<rparr>]"
  by (simp add: RetrievalEngine_def calculateTFIDF_def termDocFreq_docK_docB
      docVector_docK docVector_docB_constructor)
     (simp add: docK_def docB_def)

lemma cosine_constructor_docK:
  "cosineSimilarity [(''constructor'', Other)]
     [(''constructor'', NaN), (''injection'', Num (ln 2 / 2))] = NaN"
  by (simp add: cosineSimilarity_def cosineSums_def cosineStep_def evaluate)

lemma cosine_constructor_docB:
  "cosineSimilarity [(''constructor'', Other)]
     [(''cats'', Num (ln 2 / 3)), (''are'', Num (ln 2 / 3)), (''mammals'', Num (ln 2 / 3))] = NaN"
  by (simp add: cosineSimilarity_def cosineSums_def cosineStep_def evaluate)

lemma retrieve_constructor:
  "retrieve (RetrievalEngine (Some [docK, docB])) (Some ''constructor'') 3 = []"
proof -
  have t: "trim ''constructor'' \<noteq> []"
    by (simp add: trim_def isWhiteSpace_def)
  show ?thesis
    by (simp add: retrieve_def t tokenize_constructor queryVec_constructor
        engine_docK_docB Let_def)
       (simp add: withScore_def cosine_constructor_docK cosine_constructor_docB slice0_def)
qed

subsection \<open>Rounding\<close>

lemma roundEven_eqI:
  assumes "of_int m - 1 / 2 < q" and "q < of_int m + 1 / 2"
  shows "roundEven q = m"
proof -
  have "\<lfloor>q\<rfloor> = m \<or> \<lfloor>q\<rfloor> = m - 1"
    using assms by (auto simp: floor_eq_iff)
  then show ?thesis
  proof
    assume f: "\<lfloor>q\<rfloor> = m"
    with assms have "q - of_int m < 1 / 2" by simp
    with f show ?thesis by (simp add: roundEven_def Let_def)
  next
    assume f: "\<lfloor>q\<rfloor> = m - 1"
    with assms have "1 / 2 < q - of_int (m - 1)" by simp
    with f show ?thesis by (simp add: roundEven_def Let_def)
  qed
qed

lemma roundEven_tie:
  assumes "q = of_int m + 1 / 2" and "even m"
  shows "roundEven q = m"
proof -
  have "\<lfloor>q\<rfloor> = m" using assms(1) by (simp add: floor_eq_iff)
  with assms show ?thesis by (simp add: roundEven_def Let_def)
qed

lemma roundEven_of_int: "roundEven (of_int m) = m"
  by (rule roundEven_eqI) simp_all

lemma roundEven_nonneg: "0 \<le> q \<Longrightarrow> 0 \<le> roundEven q"
  by (auto simp: roundEven_def Let_def)

lemma double_zero: "double 0 = 0"
  by (simp add: double_def)

lemma double_nonneg: "0 \<le> x \<Longrightarrow> 0 \<le> double x"
  by (simp add: double_def Let_def roundEven_nonneg)

lemma double_scaled:
  assumes lo: "2 ^ 52 \<le> \<bar>x\<bar> * 2 ^ k" and hi: "\<bar>x\<bar> * 2 ^ k < 2 ^ 53"
    and r: "roundEven (x * 2 ^ k) = m"
  shows "double x = of_int m / 2 ^ k"
proof -
  have nz: "x \<noteq> 0" using lo by auto
  then have pos: "0 < \<bar>x\<bar>" by simp
  have p: "(2::real) powr of_int (52 - int k) = 2 ^ 52 / 2 ^ k"
    by (simp add: powr_diff powr_realpow flip: powr_realpow [of 2 52])
  have p1: "(2::real) powr of_int (52 - int k + 1) = 2 ^ 53 / 2 ^ k"
  proof -
    have "(2::real) powr of_int (52 - int k + 1) = 2 powr (53 - real k)" by simp
    also have "\<dots> = 2 powr 53 / 2 powr real k" by (rule powr_diff)
    also have "\<dots> = 2 ^ 53 / 2 ^ k"
      using powr_realpow [of "2::real" 53] powr_realpow [of "2::real" k] by simp
    finally show ?thesis .
  qed
  have "(2::real) powr of_int (52 - int k) \<le> \<bar>x\<bar>"
    unfolding p using lo by (simp add: field_simps)
  moreover have "\<bar>x\<bar> < (2::real) powr of_int (52 - int k + 1)"
    unfolding p1 using hi by (simp add: field_simps)
  ultimately have fl: "\<lfloor>log 2 \<bar>x\<bar>\<rfloor> = 52 - int k"
    using floor_log_eq_powr_iff [of "\<bar>x\<bar>" 2 "52 - int k"] pos by simp
  have e: "(2::real) powr (- real k) = 1 / 2 ^ k"
  proof -
    have "(2::real) powr (- real k) = inverse (2 powr real k)" by (rule powr_minus)
    also have "\<dots> = 1 / 2 ^ k" using powr_realpow [of "2::real" k] by (simp add: inverse_eq_divide)
    finally show ?thesis .
  qed
  show ?thesis
    using nz r by (simp add: double_def Let_def fl e)
qed

lemma double_exact:
  assumes "2 ^ 52 \<le> \<bar>m\<bar>" and "\<bar>m\<bar> < 2 ^ 53"
  shows "double (of_int m / 2 ^ k) = of_int m / 2 ^ k"
proof (rule double_scaled)
  have "\<bar>real_of_int m / 2 ^ k\<bar> * 2 ^ k = real_of_int \<bar>m\<bar>" by simp
  moreover have "(2::real) ^ 52 \<le> real_of_int \<bar>m\<bar>"
    using assms(1) by (metis of_int_le_iff of_int_numeral of_int_power)
  moreover have "real_of_int \<bar>m\<bar> < 2 ^ 53"
    using assms(2) by (metis of_int_less_iff of_int_numeral of_int_power)
  ultimately show "2 ^ 52 \<le> \<bar>real_of_int m / 2 ^ k\<bar> * 2 ^ k"
    and "\<bar>real_of_int m / 2 ^ k\<bar> * 2 ^ k < 2 ^ 53"
    by simp_all
  show "roundEven (real_of_int m / 2 ^ k * 2 ^ k) = m"
    by (simp add: roundEven_of_int)
qed

lemma double_one: "double 1 = 1"
  using double_exact [of 4503599627370496 52] by simp

lemma double_two: "double 2 = 2"
  using double_exact [of 4503599627370496 51] by simp

lemma double_three: "double 3 = 3"
  using double_exact [of 6755399441055744 51] by simp

lemma double_nine: "double 9 = 9"
  using double_exact [of 5066549580791808 49] by simp

lemma double_eighteen: "double 18 = 18"
  using double_exact [of 5066549580791808 48] by simp

lemma double_half: "double (1 / 2) = 1 / 2"
  using double_exact [of 4503599627370496 53] by simp

subsection \<open>Without rounding\<close>

lemma jsAddR_id: "jsAddR (\<lambda>x. x) a b = jsAdd a b"
  by (cases a; cases b) simp_all

lemma jsMulR_id: "jsMulR (\<lambda>x. x) a b = jsMul a b"
  by (cases a; cases b) simp_all

lemma jsDivR_id: "jsDivR (\<lambda>x. x) a b = jsDiv a b"
  by (cases a; cases b) simp_all

lemma jsSqrtR_id: "jsSqrtR (\<lambda>x. x) a = jsSqrt a"
  by (cases a) simp_all

lemma jsLogR_ln: "jsLogR ln a = jsLog a"
  by (cases a) simp_all

lemma incrementR_id: "incrementR (\<lambda>x. x) = increment"
  by (intro ext) (simp add: incrementR_def increment_def jsAddR_id)

lemma cosineSimilarityR_id: "cosineSimilarityR (\<lambda>x. x) = cosineSimilarity"
proof -
  have "cosineStepR (\<lambda>x. x) = cosineStep"
    by (intro ext) (simp add: cosineStepR_def cosineStep_def jsAddR_id jsMulR_id Let_def)
  then have "cosineSumsR (\<lambda>x. x) = cosineSums"
    by (intro ext) (simp add: cosineSumsR_def cosineSums_def)
  then show ?thesis
    by (intro ext)
      (simp add: cosineSimilarityR_def cosineSimilarity_def jsMulR_id jsSqrtR_id jsDivR_id Let_def
         cong: if_cong)
qed

lemma retrieveR_id: "retrieveR (\<lambda>x. x) = retrieve"
proof -
  have "queryVecR (\<lambda>x. x) = queryVec"
    by (intro ext) (simp add: queryVecR_def queryVec_def incrementR_id)
  moreover have "withScoreR (\<lambda>x. x) = withScore"
    by (intro ext) (simp add: withScoreR_def withScore_def cosineSimilarityR_id)
  ultimately show ?thesis
    by (intro ext) (simp add: retrieveR_def retrieve_def Let_def cong: if_cong option.case_cong)
qed

lemma RetrievalEngineR_id: "RetrievalEngineR (\<lambda>x. x) ln = RetrievalEngine"
proof -
  have "termDocFreqR (\<lambda>x. x) = termDocFreq"
    by (intro ext) (simp add: termDocFreqR_def termDocFreq_def incrementR_id)
  moreover have "docVectorR (\<lambda>x. x) ln = docVector"
    by (intro ext)
      (simp add: docVectorR_def docVector_def incrementR_id jsDivR_id jsMulR_id jsLogR_ln Let_def)
  ultimately have "calculateTFIDFR (\<lambda>x. x) ln = calculateTFIDF"
    by (intro ext) (simp add: calculateTFIDFR_def calculateTFIDF_def Let_def)
  then show ?thesis
    by (intro ext) (simp add: RetrievalEngineR_def RetrievalEngine_def)
qed

subsection \<open>A score above 1\<close>

lemmas evaluateR = incrementR_def setProp_def getProp_def inheritedNames_def orElse_def
  truthy_def operand_def newSet_def contentOrEmpty_def Let_def

lemma tokenize_cats: "tokenize (Some ''cats'') = [''cats'']"
  by code_simp

lemma tokenize_dogs: "tokenize (Some ''dogs'') = [''dogs'']"
  by code_simp

lemma tokenize_thrice:
  "tokenize (Some ''machine learning machine learning machine learning'') =
     [''machine'', ''learning'', ''machine'', ''learning'', ''machine'', ''learning'']"
  by code_simp

lemma termDocFreqR_rounding:
  "termDocFreqR double [docM, docCats, docDogs] =
     [(''machine'', Num 1), (''learning'', Num 1), (''cats'', Num 1), (''dogs'', Num 1)]"
  by (simp add: termDocFreqR_def docM_def docCats_def docDogs_def tokenize_machine_learning
      tokenize_cats tokenize_dogs evaluateR double_one)

lemma double_log3_half:
  "double (4947709893870347 / 9007199254740992) = 4947709893870347 / 9007199254740992"
  using double_exact [of 4947709893870347 53] by simp

lemma double_log3:
  "double (4947709893870347 / 4503599627370496) = 4947709893870347 / 4503599627370496"
  using double_exact [of 4947709893870347 52] by simp

lemma docVectorR_docM:
  "docVectorR double mathLog 3
     [(''machine'', Num 1), (''learning'', Num 1), (''cats'', Num 1), (''dogs'', Num 1)] docM
   = [(''machine'', Num (4947709893870347 / 9007199254740992)),
      (''learning'', Num (4947709893870347 / 9007199254740992))]"
  by (simp add: docVectorR_def docM_def tokenize_machine_learning evaluateR double_one
      double_two double_three double_half mathLog_def double_log3_half)

lemma docVectorR_docCats:
  "docVectorR double mathLog 3
     [(''machine'', Num 1), (''learning'', Num 1), (''cats'', Num 1), (''dogs'', Num 1)] docCats
   = [(''cats'', Num (4947709893870347 / 4503599627370496))]"
  by (simp add: docVectorR_def docCats_def tokenize_cats evaluateR double_one
      double_three mathLog_def double_log3)

lemma docVectorR_docDogs:
  "docVectorR double mathLog 3
     [(''machine'', Num 1), (''learning'', Num 1), (''cats'', Num 1), (''dogs'', Num 1)] docDogs
   = [(''dogs'', Num (4947709893870347 / 4503599627370496))]"
  by (simp add: docVectorR_def docDogs_def tokenize_dogs evaluateR double_one
      double_three mathLog_def double_log3)

lemma queryVecR_thrice:
  "queryVecR double [''machine'', ''learning'', ''machine'', ''learning'', ''machine'', ''learning'']
   = [(''machine'', Num 3), (''learning'', Num 3)]"
  by (simp add: queryVecR_def evaluateR double_one double_two double_three)

lemma double_3w:
  "double (14843129681611041 / 9007199254740992) = 463847802550345 / 281474976710656"
proof -
  have "roundEven (14843129681611041 / 9007199254740992 * 2 ^ 52) = 7421564840805520"
    by (rule roundEven_tie) simp_all
  then have "double (14843129681611041 / 9007199254740992) = of_int 7421564840805520 / 2 ^ 52"
    by (intro double_scaled) simp_all
  then show ?thesis by simp
qed

lemma double_dot1:
  "double (463847802550345 / 281474976710656) = 463847802550345 / 281474976710656"
  using double_exact [of 7421564840805520 52] by simp

lemma double_dot2:
  "double (463847802550345 / 140737488355328) = 463847802550345 / 140737488355328"
  using double_exact [of 7421564840805520 51] by simp

lemma double_ww:
  "double (24479833193902520374243245900409 / 81129638414606681695789005144064)
   = 42465741329459 / 140737488355328"
proof -
  have "roundEven (24479833193902520374243245900409 / 81129638414606681695789005144064 * 2 ^ 54)
      = 5435614890170752"
    by (rule roundEven_eqI) simp_all
  then have "double (24479833193902520374243245900409 / 81129638414606681695789005144064)
      = of_int 5435614890170752 / 2 ^ 54"
    by (intro double_scaled) simp_all
  then show ?thesis by simp
qed

lemma double_mag1:
  "double (42465741329459 / 140737488355328) = 42465741329459 / 140737488355328"
  using double_exact [of 5435614890170752 54] by simp

lemma double_mag2:
  "double (42465741329459 / 70368744177664) = 42465741329459 / 70368744177664"
  using double_exact [of 5435614890170752 53] by simp

lemma double_sqrt18: "double (sqrt 18) = 4776788754394329 / 1125899906842624"
proof -
  have lo: "4776788754394328.5 / 2 ^ 50 < sqrt 18"
    by (rule real_less_rsqrt) (simp add: power2_eq_square)
  have hi: "sqrt 18 < 4776788754394329.5 / 2 ^ 50"
    by (rule real_less_lsqrt) (simp_all add: power2_eq_square)
  have "roundEven (sqrt 18 * 2 ^ 50) = 4776788754394329"
    using lo hi by (intro roundEven_eqI) (simp_all add: field_simps)
  moreover have "2 ^ 52 \<le> \<bar>sqrt 18\<bar> * 2 ^ 50" using lo by (simp add: field_simps)
  moreover have "\<bar>sqrt 18\<bar> * 2 ^ 50 < 2 ^ 53" using hi by (simp add: field_simps)
  ultimately have "double (sqrt 18) = of_int 4776788754394329 / 2 ^ 50"
    by (intro double_scaled)
  then show ?thesis by simp
qed

lemma double_sqrt_mag:
  "double (sqrt (42465741329459 / 70368744177664)) = 6997118434598991 / 9007199254740992"
proof -
  have lo: "6997118434598990.5 / 2 ^ 53 < sqrt (42465741329459 / 70368744177664)"
    by (rule real_less_rsqrt) (simp add: power2_eq_square)
  have hi: "sqrt (42465741329459 / 70368744177664) < 6997118434598991.5 / 2 ^ 53"
    by (rule real_less_lsqrt) (simp_all add: power2_eq_square)
  have "roundEven (sqrt (42465741329459 / 70368744177664) * 2 ^ 53) = 6997118434598991"
    using lo hi by (intro roundEven_eqI) (simp_all add: field_simps)
  moreover have "2 ^ 52 \<le> \<bar>sqrt (42465741329459 / 70368744177664)\<bar> * 2 ^ 53"
    using lo by (simp add: field_simps)
  moreover have "\<bar>sqrt (42465741329459 / 70368744177664)\<bar> * 2 ^ 53 < 2 ^ 53"
    using hi by (simp add: field_simps)
  ultimately have "double (sqrt (42465741329459 / 70368744177664))
      = of_int 6997118434598991 / 2 ^ 53"
    by (intro double_scaled)
  then show ?thesis by simp
qed

lemma double_denom:
  "double (33423756651557711423744199522039 / 10141204801825835211973625643008)
   = 7421564840805519 / 2251799813685248"
proof -
  have "roundEven (33423756651557711423744199522039 / 10141204801825835211973625643008 * 2 ^ 51)
      = 7421564840805519"
    by (rule roundEven_eqI) simp_all
  then have "double (33423756651557711423744199522039 / 10141204801825835211973625643008)
      = of_int 7421564840805519 / 2 ^ 51"
    by (intro double_scaled) simp_all
  then show ?thesis by simp
qed

lemma double_quotient:
  "double (7421564840805520 / 7421564840805519) = 4503599627370497 / 4503599627370496"
proof -
  have "roundEven (7421564840805520 / 7421564840805519 * 2 ^ 52) = 4503599627370497"
    by (rule roundEven_eqI) simp_all
  then have "double (7421564840805520 / 7421564840805519) = of_int 4503599627370497 / 2 ^ 52"
    by (intro double_scaled) simp_all
  then show ?thesis by simp
qed

lemma sumsR_docM:
  "cosineSumsR double [(''machine'', Num 3), (''learning'', Num 3)]
     [(''machine'', Num (4947709893870347 / 9007199254740992)),
      (''learning'', Num (4947709893870347 / 9007199254740992))]
   = (Num (463847802550345 / 140737488355328), Num 18,
      Num (42465741329459 / 70368744177664))"
  by (simp add: cosineSumsR_def cosineStepR_def evaluateR double_3w double_dot1 double_dot2
      double_ww double_mag1 double_mag2 double_nine double_eighteen)

lemma cosineR_docM:
  "cosineSimilarityR double [(''machine'', Num 3), (''learning'', Num 3)]
     [(''machine'', Num (4947709893870347 / 9007199254740992)),
      (''learning'', Num (4947709893870347 / 9007199254740992))]
   = Num (4503599627370497 / 4503599627370496)"
  by (simp add: cosineSimilarityR_def sumsR_docM Let_def double_sqrt18 double_sqrt_mag
      double_denom double_quotient)

lemma double_ll:
  "double (24479833193902520374243245900409 / 20282409603651670423947251286016)
   = 42465741329459 / 35184372088832"
proof -
  have "roundEven (24479833193902520374243245900409 / 20282409603651670423947251286016 * 2 ^ 52)
      = 5435614890170752"
    by (rule roundEven_eqI) simp_all
  then have "double (24479833193902520374243245900409 / 20282409603651670423947251286016)
      = of_int 5435614890170752 / 2 ^ 52"
    by (intro double_scaled) simp_all
  then show ?thesis by simp
qed

lemma double_mag3:
  "double (42465741329459 / 35184372088832) = 42465741329459 / 35184372088832"
  using double_exact [of 5435614890170752 52] by simp

lemma cosineR_cats:
  "cosineSimilarityR double [(''machine'', Num 3), (''learning'', Num 3)]
     [(''cats'', Num (4947709893870347 / 4503599627370496))] = Num 0"
  by (simp add: cosineSimilarityR_def cosineSumsR_def cosineStepR_def evaluateR double_zero
      double_nine double_eighteen double_ll double_mag3 double_sqrt18)

lemma cosineR_dogs:
  "cosineSimilarityR double [(''machine'', Num 3), (''learning'', Num 3)]
     [(''dogs'', Num (4947709893870347 / 4503599627370496))] = Num 0"
  by (simp add: cosineSimilarityR_def cosineSumsR_def cosineStepR_def evaluateR double_zero
      double_nine double_eighteen double_ll double_mag3 double_sqrt18)

lemma engineR_roundingDocs:
  "RetrievalEngineR double mathLog (Some roundingDocs) =
     [\<lparr>doc_id = 6, title = ''M'', content = Some ''machine learning'', timestamp = ''t6'',
       tfidf = [(''machine'', Num (4947709893870347 / 9007199254740992)),
                (''learning'', Num (4947709893870347 / 9007199254740992))]\<rparr>,
      \<lparr>doc_id = 7, title = ''Cats'', content = Some ''cats'', timestamp = ''t7'',
       tfidf = [(''cats'', Num (4947709893870347 / 4503599627370496))]\<rparr>,
      \<lparr>doc_id = 8, title = ''Dogs'', content = Some ''dogs'', timestamp = ''t8'',
       tfidf = [(''dogs'', Num (4947709893870347 / 4503599627370496))]\<rparr>]"
  by (simp add: RetrievalEngineR_def calculateTFIDFR_def roundingDocs_def termDocFreqR_rounding
      docVectorR_docM docVectorR_docCats docVectorR_docDogs)
     (simp add: docM_def docCats_def docDogs_def)

lemma trim_thrice: "trim ''machine learning machine learning machine learning'' \<noteq> []"
  by (simp add: trim_def isWhiteSpace_def)

lemma retrieveR_roundingDocs:
  "retrieveR double (RetrievalEngineR double mathLog (Some roundingDocs))
     (Some ''machine learning machine learning machine learning'') 3 =
     [\<lparr>doc_id = 6, title = ''M'', content = Some ''machine learning'', timestamp = ''t6'',
       tfidf = [(''machine'', Num (4947709893870347 / 9007199254740992)),
                (''learning'', Num (4947709893870347 / 9007199254740992))],
       score = Num (4503599627370497 / 4503599627370496)\<rparr>]"
  by (simp add: retrieveR_def trim_thrice tokenize_thrice queryVecR_thrice
      engineR_roundingDocs Let_def)
     (simp add: withScoreR_def cosineR_docM cosineR_cats cosineR_dogs slice0_def)

subsection \<open>Bounds under any rounding\<close>

lemma retrieveR_cases:
  "retrieveR rnd documents query topK = [] \<or>
   retrieveR rnd documents query topK =
     slice0 topK (sort_key (\<lambda>d. - numberOf (score d))
       (filter (\<lambda>d. jsPositive (score d))
          (map (withScoreR rnd (queryVecR rnd (tokenize query))) documents)))"
  by (simp add: retrieveR_def Let_def split: option.splits)

lemma retrieveR_bounds:
  "(0 < topK \<longrightarrow> length (retrieveR rnd documents query topK) \<le> nat topK) \<and>
   length (retrieveR rnd documents query topK) \<le>
     length (filter (\<lambda>d. jsPositive (cosineSimilarityR rnd (queryVecR rnd (tokenize query))
                                         (tfidf d))) documents) \<and>
   (\<forall>r\<in>set (retrieveR rnd documents query topK). jsPositive (score r))"
proof -
  let ?qv = "queryVecR rnd (tokenize query)"
  let ?pos = "filter (\<lambda>d. jsPositive (score d)) (map (withScoreR rnd ?qv) documents)"
  let ?srt = "sort_key (\<lambda>d. - numberOf (score d)) ?pos"
  have len: "length ?pos =
      length (filter (\<lambda>d. jsPositive (cosineSimilarityR rnd ?qv (tfidf d))) documents)"
    by (induction documents) (simp_all add: withScoreR_def)
  consider (none) "retrieveR rnd documents query topK = []"
    | (some) "retrieveR rnd documents query topK = slice0 topK ?srt"
    using retrieveR_cases by blast
  then show ?thesis
  proof cases
    case none
    then show ?thesis by simp
  next
    case some
    have "length (slice0 topK ?srt) \<le> length ?srt" by (rule length_slice0_le)
    then have a: "length (slice0 topK ?srt) \<le>
        length (filter (\<lambda>d. jsPositive (cosineSimilarityR rnd ?qv (tfidf d))) documents)"
      using len by simp
    have b: "0 < topK \<longrightarrow> length (slice0 topK ?srt) \<le> nat topK"
      by (simp add: length_slice0)
    have "set (slice0 topK ?srt) \<subseteq> set ?pos"
      using set_slice0 [of topK ?srt] by simp
    then have c: "\<forall>r\<in>set (slice0 topK ?srt). jsPositive (score r)"
      by auto
    from a b c show ?thesis unfolding some by blast
  qed
qed

section \<open>The normalizer\<close>

text \<open>
  C4. \<open>tokenize\<close> is the normalizer of the specification: lowercase, replace every
  character that is neither a word character nor white space by a space, collapse the
  runs of white space, trim, split at white space, and drop every token of length at
  most 2, keeping the order and the duplicates of the surviving tokens. An absent and an
  empty text give no token.
\<close>

theorem tokenize_refines_normalize:
  "tokenize text_in = normalize text_in \<and> tokenize None = [] \<and> tokenize (Some []) = []"
proof -
  have "tokenize text_in = normalize text_in"
  proof (cases text_in)
    case None
    then show ?thesis by (simp add: tokenize_def normalize_def)
  next
    case (Some t)
    let ?p = "trim (collapseSpaces (replaceNonWord (toLowerCase t)))"
    have p: "stripSpace (collapseRuns (replaceOthers (lowercase t))) = ?p"
      by (simp add: trim_stripSpace collapseSpaces_collapseRuns replaceNonWord_replaceOthers
          toLowerCase_lowercase)
    have "\<forall>c\<in>set ?p. isWhiteSpace c \<longrightarrow> c = CHR '' ''"
      using set_trim collapseSpaces_white by blast
    then have eq: "splitWhen isSpace ?p = split (CHR '' '') ?p"
      by (intro split_space) (simp add: isWhiteSpace_table)
    have le: "(\<lambda>token::string. \<not> length token \<le> 2) = (\<lambda>word. length word > 2)"
      by (rule ext) auto
    show ?thesis
    proof (cases "t = []")
      case True
      with Some show ?thesis
        by (simp add: tokenize_def normalize_def lowercase_def replaceOthers_def stripSpace_def)
    next
      case False
      with Some show ?thesis
        by (simp only: tokenize_def normalize_def option.case if_False p eq le
            preprocessText_def)
    qed
  qed
  then show ?thesis by (simp add: tokenize_def)
qed

section \<open>The index\<close>

text \<open>The weights of the specification, for every term that is not the name of an
  inherited property: in the index of a collection of \<open>N\<close> documents the vector of a
  document maps such a term \<open>t\<close> to \<open>tf(t, d) * idf(t)\<close> when \<open>tf(t, d) > 0\<close> and has no
  key \<open>t\<close> otherwise.\<close>

lemma weights_of_ordinary_terms:
  "i < length documents \<Longrightarrow> t \<notin> set inheritedNames \<Longrightarrow>
   length (calculateTFIDF documents) = length documents \<and>
   distinct (map fst (tfidf (calculateTFIDF documents ! i))) \<and>
   map_of (tfidf (calculateTFIDF documents ! i)) t =
     (if 0 < tf t (tokenize (content (documents ! i)))
      then Some (Num (tf t (tokenize (content (documents ! i))) * idf t documents))
      else None)"
  by (simp add: length_calculateTFIDF tfidf_calculateTFIDF distinct_docVector tf_pos_iff
      weight_ordinary [symmetric])

lemma df_constructor: "df ''constructor'' [docK, docB] = 1"
  by (simp add: df_def docK_def docB_def tokenize_docK tokenize_docB)

text \<open>
  C3. In the index of a collection of \<open>N\<close> documents, the vector of the document \<open>d\<close>
  should map every term \<open>t\<close> of \<open>d\<close> to \<open>tf(t, d) * idf(t)\<close>. For the documents
  \<open>Constructor injection\<close> and \<open>Cats are mammals\<close> the weight of \<open>constructor\<close> in the
  first document is \<open>NaN\<close>, where \<open>tf * idf\<close> is \<open>1/2 * ln 2\<close>: the counters are object
  literals, and the first read of the key \<open>constructor\<close> finds the inherited function
  \<open>Object\<close> instead of \<open>undefined\<close>.
\<close>

theorem constructor_weight:
  "map_of (tfidf (calculateTFIDF [docK, docB] ! 0)) ''constructor'' = Some NaN \<and>
   tf ''constructor'' (tokenize (content docK)) * idf ''constructor'' [docK, docB] = 1 / 2 * ln 2"
proof -
  have "tf ''constructor'' (tokenize (content docK)) = 1 / 2"
    by (simp add: tf_def docK_def tokenize_docK)
  moreover have "idf ''constructor'' [docK, docB] = ln 2"
    by (simp add: idf_def df_constructor)
  ultimately show ?thesis
    by (simp add: calculateTFIDF_def termDocFreq_docK_docB docVector_docK)
qed

text \<open>The weight 0 of the specification, for a term that is not the name of an
  inherited property and occurs in every document.\<close>

lemma zero_weight_ordinary:
  assumes o: "t \<notin> set inheritedNames"
    and all: "\<forall>d\<in>set documents. t \<in> set (tokenize (content d))"
    and e: "e \<in> set (calculateTFIDF documents)"
  shows "map_of (tfidf e) t = Some (Num 0)"
proof -
  from e obtain i where i: "i < length documents" and ei: "e = calculateTFIDF documents ! i"
    by (auto simp: in_set_conv_nth length_calculateTFIDF)
  from i have ne: "documents \<noteq> []" by auto
  from i all have "t \<in> set (tokenize (content (documents ! i)))" by simp
  then show ?thesis
    by (simp add: ei weight_ordinary [OF i o] idf_everywhere [OF all ne])
qed

text \<open>
  C10. A term that occurs in every document of a collection should have the weight 0 in
  the vector of every document, and every stored weight of a collection of one document
  should be 0. In the index of the single document \<open>Constructor injection\<close> the weight of
  \<open>injection\<close> is 0 and the weight of \<open>constructor\<close> is \<open>NaN\<close>, by the inherited
  property that the counters read.
\<close>

theorem constructor_weight_single_document:
  "map tfidf (RetrievalEngine (Some [docK])) = [[(''constructor'', NaN), (''injection'', Num 0)]]"
  by (simp add: engine_docK)

section \<open>The query vector\<close>

text \<open>The raw counts of the specification, for every term that is not the name of an
  inherited property.\<close>

lemma query_vector_ordinary:
  "t \<notin> set inheritedNames \<Longrightarrow>
   map_of (queryVec (tokenize query)) t =
     (if t \<in> set (tokenize query) then Some (Num (real (count_list (tokenize query) t)))
      else None)"
  by (simp add: queryVec_def map_of_counts)

text \<open>
  C5. The query vector of \<open>retrieve\<close> should map each term of the normalized query to
  the number of its occurrences. For the query \<open>constructor\<close> the term occurs once and
  the vector maps it to a string, not to 1: \<open>queryVec[term] || 0\<close> reads the inherited
  function \<open>Object\<close>, and \<open>+ 1\<close> appends to its text. With this vector every score
  is \<open>NaN\<close>, and the document \<open>Constructor injection\<close> is not retrieved.
\<close>

theorem constructor_query_vector:
  "queryVec (tokenize (Some ''constructor'')) = [(''constructor'', Other)] \<and>
   count_list (tokenize (Some ''constructor'')) ''constructor'' = 1 \<and>
   retrieve (RetrievalEngine (Some [docK, docB])) (Some ''constructor'') 3 = []"
  by (simp add: tokenize_constructor queryVec_constructor retrieve_constructor)

section \<open>Scenarios\<close>

text \<open>
  C1. In a collection made of a single document whose content contains only the terms of
  the query, the cosine similarity of the document with the query is 0 or \<open>NaN\<close>, never
  1, and \<open>retrieve\<close> returns the empty result.
\<close>

theorem single_document_similarity:
  "set (tokenize (content d)) \<subseteq> set (tokenize query) \<longrightarrow>
     (\<forall>e\<in>set (RetrievalEngine (Some [d])).
        cosineSimilarity (queryVec (tokenize query)) (tfidf e) = Num 0 \<or>
        cosineSimilarity (queryVec (tokenize query)) (tfidf e) = NaN) \<and>
     retrieve (RetrievalEngine (Some [d])) query topK = []"
  using single_document_cosine_value [of _ d "queryVec (tokenize query)"]
  by (simp add: single_document_retrieve)

theorem single_document_similarity_witness:
  "set (tokenize (content docR)) \<subseteq> set (tokenize (Some ''machine learning'')) \<and>
   hd (RetrievalEngine (Some [docR])) \<in> set (RetrievalEngine (Some [docR])) \<and>
   (cosineSimilarity (queryVec (tokenize (Some ''machine learning'')))
      (tfidf (hd (RetrievalEngine (Some [docR])))) = Num 0 \<or>
    cosineSimilarity (queryVec (tokenize (Some ''machine learning'')))
      (tfidf (hd (RetrievalEngine (Some [docR])))) = NaN) \<and>
   retrieve (RetrievalEngine (Some [docR])) (Some ''machine learning'') 3 = []"
proof -
  have h: "set (tokenize (content docR)) \<subseteq> set (tokenize (Some ''machine learning''))"
    by (simp add: docR_def tokenize_docR tokenize_machine_learning)
  have m: "hd (RetrievalEngine (Some [docR])) \<in> set (RetrievalEngine (Some [docR]))"
    using engine_single by (rule hd_in_set)
  from h m show ?thesis
    using single_document_similarity [of docR "Some ''machine learning''" 3]
    by blast
qed

theorem single_document_similarity_counterexample:
  "retrieve (RetrievalEngine (Some [docR])) (Some ''machine learning'') 3 = [] \<and>
   map tfidf (RetrievalEngine (Some [docR])) = [[(''machine'', Num 0), (''learning'', Num 0)]] \<and>
   cosineSimilarity (queryVec (tokenize (Some ''machine learning'')))
     [(''machine'', Num 0), (''learning'', Num 0)] = Num 0"
proof -
  have "retrieve (RetrievalEngine (Some [docR])) (Some ''machine learning'') 3 = []"
    by (rule single_document_retrieve)
  then show ?thesis
    by (simp add: engine_docR tokenize_machine_learning queryVec_machine_learning
        cosine_docR_alone)
qed

text \<open>
  C2. For the three documents \<open>ML is a subset of AI\<close>, \<open>Cats are mammals\<close> and
  \<open>Deep learning is part of machine learning\<close>, the query \<open>machine learning\<close> and
  \<open>topK = 3\<close>, \<open>retrieve\<close> returns exactly one result, document 3: documents 1 and 2
  share no term with the query and are excluded.
\<close>

theorem retrieve_three_documents:
  "map doc_id (retrieve (RetrievalEngine (Some threeDocs)) (Some ''machine learning'') 3) = [3]"
  by (simp add: retrieve_threeDocs)

theorem retrieve_three_documents_counterexample:
  "length (retrieve (RetrievalEngine (Some threeDocs)) (Some ''machine learning'') 3) \<noteq> 2 \<and>
   1 \<notin> doc_id ` set (retrieve (RetrievalEngine (Some threeDocs)) (Some ''machine learning'') 3)"
  by (simp add: retrieve_threeDocs)

section \<open>Ranking\<close>

text \<open>
  C6. The results of \<open>retrieve\<close> are in non-increasing order of score, and the results
  of any one score \<open>s\<close> are an initial segment of the documents of score \<open>s\<close> in the
  order of the collection: equal scores keep their input order.
\<close>

theorem retrieve_sorted_stable:
  "sorted_wrt (\<lambda>a b. jsGe (score a) (score b)) (retrieve documents query topK) \<and>
   prefix (filter (\<lambda>d. score d = s) (retrieve documents query topK))
          (filter (\<lambda>d. score d = s) (map (withScore (queryVec (tokenize query))) documents))"
proof -
  let ?all = "map (withScore (queryVec (tokenize query))) documents"
  let ?pos = "filter (\<lambda>d. jsPositive (score d)) ?all"
  let ?srt = "sort_key (\<lambda>d. - numberOf (score d)) ?pos"
  consider (none) "retrieve documents query topK = []"
    | (some) "retrieve documents query topK = slice0 topK ?srt"
    using retrieve_cases by blast
  then show ?thesis
  proof cases
    case none
    then show ?thesis by simp
  next
    case some
    obtain n where n: "slice0 topK ?srt = take n ?srt"
      using slice0_take by blast
    have "sorted_wrt (\<lambda>a b. jsGe (score a) (score b)) ?srt" by (rule retrieved_sorted)
    then have srt: "sorted_wrt (\<lambda>a b. jsGe (score a) (score b)) (slice0 topK ?srt)"
      unfolding n by (rule sorted_wrt_take)
    have p1: "prefix (filter (\<lambda>d. score d = s) (slice0 topK ?srt))
                 (filter (\<lambda>d. score d = s) ?srt)"
      by (rule filter_mono_prefix) (rule prefix_slice0)
    have e: "filter (\<lambda>d. score d = s) ?srt = filter (\<lambda>d. score d = s) ?pos"
      by (rule retrieved_stable)
    have p2: "prefix (filter (\<lambda>d. score d = s) ?pos) (filter (\<lambda>d. score d = s) ?all)"
    proof (cases "jsPositive s")
      case True
      then have "filter (\<lambda>d. score d = s) ?pos = filter (\<lambda>d. score d = s) ?all"
        by (intro filter_filter_subset) simp
      then show ?thesis by (simp only: prefix_order.order_refl)
    next
      case False
      then have "filter (\<lambda>d. score d = s) ?pos = []"
        by (intro filter_filter_disjoint) simp
      then show ?thesis by (simp only: Nil_prefix)
    qed
    have "prefix (filter (\<lambda>d. score d = s) (slice0 topK ?srt))
                 (filter (\<lambda>d. score d = s) ?all)"
      using p1 p2 unfolding e by (rule prefix_order.order_trans)
    with srt show ?thesis unfolding some by (rule conjI)
  qed
qed

text \<open>The bounds with exact arithmetic: the score is at most 1 by the Cauchy-Schwarz
  inequality.\<close>

lemma retrieve_bounds_exact:
  "(0 < topK \<longrightarrow> length (retrieve documents query topK) \<le> nat topK) \<and>
   length (retrieve documents query topK) \<le>
     length (filter (\<lambda>d. jsPositive (cosineSimilarity (queryVec (tokenize query)) (tfidf d)))
               documents) \<and>
   (\<forall>r\<in>set (retrieve documents query topK). \<exists>x. score r = Num x \<and> 0 < x \<and> x \<le> 1)"
proof -
  let ?qv = "queryVec (tokenize query)"
  let ?pos = "filter (\<lambda>d. jsPositive (score d)) (map (withScore ?qv) documents)"
  let ?srt = "sort_key (\<lambda>d. - numberOf (score d)) ?pos"
  have len: "length ?pos =
      length (filter (\<lambda>d. jsPositive (cosineSimilarity ?qv (tfidf d))) documents)"
    by (induction documents) (simp_all add: withScore_def)
  have sc: "\<exists>x. score r = Num x \<and> 0 < x \<and> x \<le> 1" if "r \<in> set ?pos" for r
  proof -
    from that obtain d where r: "r = withScore ?qv d" and p: "jsPositive (score r)" by auto
    from p obtain x where x: "score r = Num x" "0 < x" using jsPositive_Num by blast
    from r x(1) have "cosineSimilarity ?qv (tfidf d) = Num x" by (simp add: withScore_def)
    then have "x \<le> 1" by (rule cosineSimilarity_le_1)
    with x show ?thesis by simp
  qed
  consider (none) "retrieve documents query topK = []"
    | (some) "retrieve documents query topK = slice0 topK ?srt"
    using retrieve_cases by blast
  then show ?thesis
  proof cases
    case none
    then show ?thesis by simp
  next
    case some
    have "length (slice0 topK ?srt) \<le> length ?srt" by (rule length_slice0_le)
    then have a: "length (slice0 topK ?srt) \<le>
        length (filter (\<lambda>d. jsPositive (cosineSimilarity ?qv (tfidf d))) documents)"
      using len by simp
    have b: "0 < topK \<longrightarrow> length (slice0 topK ?srt) \<le> nat topK"
      by (simp add: length_slice0)
    have "set (slice0 topK ?srt) \<subseteq> set ?pos"
      using set_slice0 [of topK ?srt] by simp
    with sc have c: "\<forall>r\<in>set (slice0 topK ?srt). \<exists>x. score r = Num x \<and> 0 < x \<and> x \<le> 1"
      by blast
    from a b c show ?thesis unfolding some by blast
  qed
qed

text \<open>
  C7. Whatever the rounding of the arithmetic, \<open>retrieve\<close> returns at most \<open>topK\<close>
  results when \<open>topK\<close> is positive and at most as many results as there are documents
  of strictly positive similarity to the query, and every result has a score that is a
  strictly positive number. Without rounding the engine is the exact one, and there
  every score is at most 1.
\<close>

theorem retrieve_bounds:
  "(0 < topK \<longrightarrow> length (retrieveR rnd documents query topK) \<le> nat topK) \<and>
   length (retrieveR rnd documents query topK) \<le>
     length (filter (\<lambda>d. jsPositive (cosineSimilarityR rnd (queryVecR rnd (tokenize query))
                                         (tfidf d))) documents) \<and>
   (\<forall>r\<in>set (retrieveR rnd documents query topK). \<exists>x. score r = Num x \<and> 0 < x) \<and>
   retrieveR (\<lambda>x. x) documents' query' topK' = retrieve documents' query' topK' \<and>
   (\<forall>r\<in>set (retrieve documents' query' topK'). \<exists>x. score r = Num x \<and> 0 < x \<and> x \<le> 1)"
proof -
  have "\<forall>r\<in>set (retrieveR rnd documents query topK). \<exists>x. score r = Num x \<and> 0 < x"
    using retrieveR_bounds [of topK rnd documents query] jsPositive_Num by blast
  then show ?thesis
    using retrieveR_bounds [of topK rnd documents query]
      retrieve_bounds_exact [of topK' documents' query']
    by (simp add: retrieveR_id)
qed

theorem retrieve_bounds_witness:
  "(0::int) < 3 \<and>
   hd (retrieveR double (RetrievalEngineR double mathLog (Some roundingDocs))
         (Some ''machine learning machine learning machine learning'') 3)
     \<in> set (retrieveR double (RetrievalEngineR double mathLog (Some roundingDocs))
              (Some ''machine learning machine learning machine learning'') 3) \<and>
   length (retrieveR double (RetrievalEngineR double mathLog (Some roundingDocs))
             (Some ''machine learning machine learning machine learning'') 3) \<le> nat 3 \<and>
   (\<exists>x. score (hd (retrieveR double (RetrievalEngineR double mathLog (Some roundingDocs))
                        (Some ''machine learning machine learning machine learning'') 3))
          = Num x \<and> 0 < x) \<and>
   hd (retrieve (RetrievalEngine (Some threeDocs)) (Some ''machine learning'') 3)
     \<in> set (retrieve (RetrievalEngine (Some threeDocs)) (Some ''machine learning'') 3) \<and>
   (\<exists>x. score (hd (retrieve (RetrievalEngine (Some threeDocs)) (Some ''machine learning'') 3))
          = Num x \<and> 0 < x \<and> x \<le> 1)"
proof -
  have "retrieveR double (RetrievalEngineR double mathLog (Some roundingDocs))
         (Some ''machine learning machine learning machine learning'') 3 \<noteq> []"
    by (simp add: retrieveR_roundingDocs)
  then have m: "hd (retrieveR double (RetrievalEngineR double mathLog (Some roundingDocs))
         (Some ''machine learning machine learning machine learning'') 3)
     \<in> set (retrieveR double (RetrievalEngineR double mathLog (Some roundingDocs))
              (Some ''machine learning machine learning machine learning'') 3)"
    by (rule hd_in_set)
  have "retrieve (RetrievalEngine (Some threeDocs)) (Some ''machine learning'') 3 \<noteq> []"
    by (simp add: retrieve_threeDocs)
  then have e: "hd (retrieve (RetrievalEngine (Some threeDocs)) (Some ''machine learning'') 3)
     \<in> set (retrieve (RetrievalEngine (Some threeDocs)) (Some ''machine learning'') 3)"
    by (rule hd_in_set)
  have p: "(0::int) < 3" by simp
  from m e p show ?thesis
    using retrieve_bounds [of 3 double "RetrievalEngineR double mathLog (Some roundingDocs)"
        "Some ''machine learning machine learning machine learning''"
        "RetrievalEngine (Some threeDocs)" "Some ''machine learning''" 3]
    by blast
qed

text \<open>With the rounding of doubles the bound 1 fails: for the documents
  \<open>machine learning\<close>, \<open>cats\<close> and \<open>dogs\<close> and the query that repeats the first
  three times, the one result has the score \<open>4503599627370497 / 4503599627370496\<close>, printed
  \<open>1.0000000000000002\<close>.\<close>

theorem retrieve_bounds_counterexample:
  "map score (retrieveR double (RetrievalEngineR double mathLog (Some roundingDocs))
                (Some ''machine learning machine learning machine learning'') 3)
     = [Num (4503599627370497 / 4503599627370496)] \<and>
   (1::real) < 4503599627370497 / 4503599627370496"
  by (simp add: retrieveR_roundingDocs)

section \<open>Degenerate inputs\<close>

lemma tokenize_is_an_to: "tokenize (Some ''is an to'') = []"
  by code_simp

text \<open>
  C8. A query that is absent, empty, made of white space only, or without any term after
  normalization gets the empty result, whatever the index and \<open>topK\<close>.
\<close>

theorem retrieve_empty_query:
  "query = None \<or> query = Some [] \<or> (\<exists>q. query = Some q \<and> (\<forall>c\<in>set q. isWhiteSpace c))
     \<or> tokenize query = []
   \<Longrightarrow> retrieve documents query topK = []"
proof (rule retrieve_no_terms)
  assume "query = None \<or> query = Some [] \<or>
          (\<exists>q. query = Some q \<and> (\<forall>c\<in>set q. isWhiteSpace c)) \<or> tokenize query = []"
  then show "tokenize query = []"
    using tokenize_white by (auto simp: tokenize_def)
qed

theorem retrieve_empty_query_witness:
  "tokenize (Some ''is an to'') = [] \<and>
   retrieve (RetrievalEngine (Some threeDocs)) (Some ''is an to'') 3 = []"
  using retrieve_empty_query [of "Some ''is an to''" "RetrievalEngine (Some threeDocs)" 3]
  by (simp add: tokenize_is_an_to)

text \<open>
  C9. On the index of an empty collection (or of an absent one) \<open>retrieve\<close> returns the
  empty result for every query and every \<open>topK\<close>.
\<close>

theorem retrieve_empty_collection:
  "retrieve (RetrievalEngine (Some [])) query topK = [] \<and>
   retrieve (RetrievalEngine None) query topK = []"
  by (simp add: RetrievalEngine_def calculateTFIDF_def retrieve_def slice0_def Let_def
      split: option.splits)

end
